theory Spec2Isabelle
  imports Main "HOL-Library.Word"
begin

unbundle bit_operations_syntax

section \<open>Data model of the branch control access table\<close>

text \<open>
  The Go package \<^verbatim>\<open>branch_control\<close> keeps the rules of the system table
  \<^verbatim>\<open>dolt_branch_control\<close> in four parallel slices. Go strings are byte sequences, so
  a Go \<^verbatim>\<open>string\<close> is a HOL \<open>string\<close> (a list of 8-bit characters) and \<^verbatim>\<open>len(s)\<close>
  is \<open>length s\<close>. \<^verbatim>\<open>Permissions\<close> is a \<^verbatim>\<open>uint64\<close> and a collection index is a
  \<^verbatim>\<open>uint32\<close>.
\<close>

type_synonym Permissions = "64 word"

definition Permissions_Admin :: Permissions where
  "Permissions_Admin = push_bit 0 1"

definition Permissions_Write :: Permissions where
  "Permissions_Write = push_bit 1 1"

datatype CollationID = Collation_utf8mb4_0900_ai_ci | Collation_utf8mb4_0900_bin

text \<open>
  Type \<^verbatim>\<open>MatchExpression\<close> is declared in a file of the package that is not part of
  the sources at hand; \<^verbatim>\<open>insert\<close> builds its values from the two fields below.
\<close>

record MatchExpression =
  CollectionIndex :: "32 word"
  SortOrders :: "32 word list"

record AccessValue =
  Branch :: string
  User :: string
  Host :: string
  Permissions :: Permissions

text \<open>
  Modelled from the spec: type \<^verbatim>\<open>Binlog\<close> is missing from the sources. The spec
  describes it as an append-only log whose entries are
  \<open>(opcode \<in> {INSERT, DELETE}, AccessValue)\<close>.
\<close>

datatype opcode = INSERT | DELETE

type_synonym Binlog = "(opcode \<times> AccessValue) list"

record Access =
  binlog :: Binlog
  Branches :: "MatchExpression list"
  Users :: "MatchExpression list"
  Hosts :: "MatchExpression list"
  Values :: "AccessValue list"
  SuperUser :: string
  SuperHost :: string

definition newAccess :: "string \<Rightarrow> string \<Rightarrow> Access" where
  "newAccess superUser superHost =
     \<lparr>binlog = [], Branches = [], Users = [], Hosts = [], Values = [],
      SuperUser = superUser, SuperHost = superHost\<rparr>"

text \<open>A Go run-time panic: the only one these functions can raise is an index out of range.\<close>

datatype panic = IndexOutOfRange

datatype error =
    ErrExpressionsTooLong string string string
  | ErrInsertingRow string string string string string Permissions
  | ErrUpdatingRow string string string string string
  | ErrUpdatingToRow string string string string string string
  | ErrDeletingRow string string string string string
  | UniqueKeyErr string string string Permissions
  | ErrorString string

text \<open>
  The functions of the repository and of its libraries that the two source files call but
  that are not part of the sources at hand are parameters of the model: the package-level
  matcher \<^verbatim>\<open>Match\<close>, \<^verbatim>\<open>FoldExpression\<close>, \<^verbatim>\<open>ParseExpression\<close>,
  \<^verbatim>\<open>strings.ToLower\<close> and \<^verbatim>\<open>Binlog.Deserialize\<close>.
\<close>

record externals =
  Match :: "MatchExpression list \<Rightarrow> string \<Rightarrow> CollationID \<Rightarrow> 32 word list"
  FoldExpression :: "string \<Rightarrow> string"
  ParseExpression :: "string \<Rightarrow> CollationID \<Rightarrow> 32 word list"
  ToLower :: "string \<Rightarrow> string"
  Binlog_Deserialize :: "Binlog \<Rightarrow> Binlog \<Rightarrow> error + Binlog"

section \<open>The rule store: access.go\<close>

text \<open>
  \<^verbatim>\<open>filterBranches\<close> and \<^verbatim>\<open>filterHosts\<close> collect \<^verbatim>\<open>tbl.Branches[filter]\<close> and
  \<^verbatim>\<open>tbl.Hosts[filter]\<close> for every filter, in order. Indexing a Go slice out of range
  panics.
\<close>

fun filterLoop :: "MatchExpression list \<Rightarrow> 32 word list \<Rightarrow> panic + MatchExpression list" where
  "filterLoop exprs [] = Inr []"
| "filterLoop exprs (flt # filters) =
     (if unat flt < length exprs
      then (case filterLoop exprs filters of
              Inl p \<Rightarrow> Inl p
            | Inr matchExprs \<Rightarrow> Inr (exprs ! unat flt # matchExprs))
      else Inl IndexOutOfRange)"

definition filterBranches :: "Access \<Rightarrow> 32 word list \<Rightarrow> panic + MatchExpression list" where
  "filterBranches tbl filters =
     (if length filters = 0 then Inr [] else filterLoop (Branches tbl) filters)"

definition filterHosts :: "Access \<Rightarrow> 32 word list \<Rightarrow> panic + MatchExpression list" where
  "filterHosts tbl filters =
     (if length filters = 0 then Inr [] else filterLoop (Hosts tbl) filters)"

fun gatherLoop :: "AccessValue list \<Rightarrow> 32 word list \<Rightarrow> Permissions \<Rightarrow> panic + Permissions" where
  "gatherLoop vals [] perms = Inr perms"
| "gatherLoop vals (collectionIndex # rest) perms =
     (if unat collectionIndex < length vals
      then gatherLoop vals rest (perms OR Permissions (vals ! unat collectionIndex))
      else Inl IndexOutOfRange)"

definition gatherPermissions :: "Access \<Rightarrow> 32 word list \<Rightarrow> panic + Permissions" where
  "gatherPermissions tbl collectionIndexes = gatherLoop (Values tbl) collectionIndexes 0"

definition Access_Match ::
  "externals \<Rightarrow> Access \<Rightarrow> string \<Rightarrow> string \<Rightarrow> string \<Rightarrow> panic + (bool \<times> Permissions)" where
  "Access_Match E tbl branch user host =
     (if SuperUser tbl = user \<and> SuperHost tbl = host then Inr (True, Permissions_Admin)
      else
        (case filterHosts tbl (Match E (Users tbl) user Collation_utf8mb4_0900_bin) of
           Inl p \<Rightarrow> Inl p
         | Inr filteredHosts \<Rightarrow>
        (case filterBranches tbl (Match E filteredHosts host Collation_utf8mb4_0900_ai_ci) of
           Inl p \<Rightarrow> Inl p
         | Inr filteredBranches \<Rightarrow>
        (let filteredIndexes = Match E filteredBranches branch Collation_utf8mb4_0900_ai_ci in
         case gatherPermissions tbl filteredIndexes of
           Inl p \<Rightarrow> Inl p
         | Inr pRes \<Rightarrow> Inr (length filteredIndexes > 0, pRes)))))"

fun GetIndexLoop :: "AccessValue list \<Rightarrow> int \<Rightarrow> string \<Rightarrow> string \<Rightarrow> string \<Rightarrow> int" where
  "GetIndexLoop [] i branchExpr userExpr hostExpr = - 1"
| "GetIndexLoop (v # vs) i branchExpr userExpr hostExpr =
     (if Branch v = branchExpr \<and> User v = userExpr \<and> Host v = hostExpr then i
      else GetIndexLoop vs (i + 1) branchExpr userExpr hostExpr)"

definition GetIndex :: "Access \<Rightarrow> string \<Rightarrow> string \<Rightarrow> string \<Rightarrow> int" where
  "GetIndex tbl branchExpr userExpr hostExpr =
     GetIndexLoop (Values tbl) 0 branchExpr userExpr hostExpr"

text \<open>
  \<^verbatim>\<open>Deserialize\<close> reads the flatbuffers table \<^verbatim>\<open>serial.BranchControlAccess\<close>,
  generated code that is not part of the sources at hand. The model of the table holds
  what the accessors return: the result of \<^verbatim>\<open>TryBinlog\<close> and the four vectors.
\<close>

record SerialMatchExpression =
  serialIndex :: "32 word"
  serialSortOrders :: "32 word list"

record SerialAccessValue =
  serialBranch :: string
  serialUser :: string
  serialHost :: string
  serialPermissions :: "64 word"

record SerialAccess =
  TryBinlog :: "error + Binlog"
  fbBranches :: "SerialMatchExpression list"
  fbUsers :: "SerialMatchExpression list"
  fbHosts :: "SerialMatchExpression list"
  fbValues :: "SerialAccessValue list"

text \<open>
  Modelled from the spec: \<^verbatim>\<open>deserializeMatchExpression\<close> is missing from the sources.
  The spec's grammar of the codec gives a match expression as a collection index and its
  weights, which the function reads back.
\<close>

definition deserializeMatchExpression :: "SerialMatchExpression \<Rightarrow> MatchExpression" where
  "deserializeMatchExpression fb =
     \<lparr>CollectionIndex = serialIndex fb, SortOrders = serialSortOrders fb\<rparr>"

definition deserializeAccessValue :: "SerialAccessValue \<Rightarrow> AccessValue" where
  "deserializeAccessValue fb =
     \<lparr>Branch = serialBranch fb, User = serialUser fb, Host = serialHost fb,
      Permissions = serialPermissions fb\<rparr>"

text \<open>
  \<^verbatim>\<open>Deserialize\<close> returns its error and leaves the store as it is then. The four loops
  fill freshly made slices position by position, which is a \<open>map\<close> over the vectors.
\<close>

definition Deserialize :: "externals \<Rightarrow> Access \<Rightarrow> SerialAccess \<Rightarrow> error option \<times> Access" where
  "Deserialize E tbl fb =
     (if length (Values tbl) \<noteq> 0
      then (Some (ErrorString ''cannot deserialize to a non-empty access table''), tbl)
      else if length (fbBranches fb) \<noteq> length (fbUsers fb)
              \<or> length (fbUsers fb) \<noteq> length (fbHosts fb)
              \<or> length (fbHosts fb) \<noteq> length (fbValues fb)
      then (Some (ErrorString ''cannot deserialize an access table with differing field lengths''), tbl)
      else (case TryBinlog fb of
              Inl err \<Rightarrow> (Some err, tbl)
            | Inr serialBinlog \<Rightarrow>
               (case Binlog_Deserialize E (binlog tbl) serialBinlog of
                  Inl err \<Rightarrow> (Some err, tbl)
                | Inr newBinlog \<Rightarrow>
                   (None, tbl\<lparr>binlog := newBinlog,
                              Branches := map deserializeMatchExpression (fbBranches fb),
                              Users := map deserializeMatchExpression (fbUsers fb),
                              Hosts := map deserializeMatchExpression (fbHosts fb),
                              Values := map deserializeAccessValue (fbValues fb)\<rparr>))))"

section \<open>The table editor: branch\_control\_table.go\<close>

text \<open>
  A row of the system table has the four columns of \<^verbatim>\<open>accessSchema\<close>; the SQL engine
  hands the editor rows of that schema only. The context matters through
  \<^verbatim>\<open>GetBranchAwareSession(ctx)\<close> alone, which is either nil or a session with a user
  and a host.
\<close>

type_synonym Row = "string \<times> string \<times> string \<times> 64 word"

record Session =
  GetUser :: string
  GetHost :: string

type_synonym Context = "Session option"

definition MaxUint16 :: nat where
  "MaxUint16 = 65535"

text \<open>
  The editor's operations return the error (\<open>None\<close> for Go's nil) together with the
  store they leave behind, or they panic; a panic ends the call and the model says nothing
  about the store it leaves. The error values carry the arguments the source gives them,
  the permissions as bits where the source formats them as text. The unexported \<^verbatim>\<open>insert\<close> and
  \<^verbatim>\<open>delete\<close> are \<open>insert_tbl\<close> and \<open>delete_tbl\<close> here.
\<close>

definition insert_tbl ::
  "externals \<Rightarrow> Access \<Rightarrow> string \<Rightarrow> string \<Rightarrow> string \<Rightarrow> Permissions \<Rightarrow> error option \<times> Access" where
  "insert_tbl E tbl branch user host perms =
     (let tblIndex = GetIndex tbl branch user host in
      if tblIndex \<noteq> - 1
      then (Some (UniqueKeyErr branch user host (Permissions (Values tbl ! nat tblIndex))), tbl)
      else
        (let branchExpr = ParseExpression E branch Collation_utf8mb4_0900_ai_ci;
             userExpr = ParseExpression E user Collation_utf8mb4_0900_bin;
             hostExpr = ParseExpression E host Collation_utf8mb4_0900_ai_ci;
             nextIdx = (of_nat (length (Values tbl)) :: 32 word)
         in (None,
             tbl\<lparr>Branches := Branches tbl @ [\<lparr>CollectionIndex = nextIdx, SortOrders = branchExpr\<rparr>],
                 Users := Users tbl @ [\<lparr>CollectionIndex = nextIdx, SortOrders = userExpr\<rparr>],
                 Hosts := Hosts tbl @ [\<lparr>CollectionIndex = nextIdx, SortOrders = hostExpr\<rparr>],
                 Values := Values tbl @ [\<lparr>Branch = branch, User = user, Host = host,
                                          Permissions = perms\<rparr>]\<rparr>)))"

text \<open>
  \<^verbatim>\<open>s[i], s[j] = s[j], s[i]\<close> reads both elements and then writes both; either index
  out of range panics.
\<close>

definition swapElems :: "'a list \<Rightarrow> nat \<Rightarrow> nat \<Rightarrow> panic + 'a list" where
  "swapElems s i j =
     (if i < length s \<and> j < length s then Inr (s[i := s ! j, j := s ! i])
      else Inl IndexOutOfRange)"

definition delete_tbl ::
  "Access \<Rightarrow> string \<Rightarrow> string \<Rightarrow> string \<Rightarrow> panic + (error option \<times> Access)" where
  "delete_tbl tbl branch user host =
     (let tblIndex = GetIndex tbl branch user host in
      if tblIndex = - 1 then Inr (None, tbl)
      else
        (let endIndex = int (length (Values tbl)) - 1 in
         case swapElems (Branches tbl) (nat tblIndex) (nat endIndex) of
           Inl p \<Rightarrow> Inl p
         | Inr branches \<Rightarrow>
        (case swapElems (Users tbl) (nat tblIndex) (nat endIndex) of
           Inl p \<Rightarrow> Inl p
         | Inr users \<Rightarrow>
        (case swapElems (Hosts tbl) (nat tblIndex) (nat endIndex) of
           Inl p \<Rightarrow> Inl p
         | Inr hosts \<Rightarrow>
        (case swapElems (Values tbl) (nat tblIndex) (nat endIndex) of
           Inl p \<Rightarrow> Inl p
         | Inr vals \<Rightarrow>
             Inr (None,
                  tbl\<lparr>Branches := take (nat endIndex) branches,
                      Users := take (nat endIndex) users,
                      Hosts := take (nat endIndex) hosts,
                      Values := take (nat endIndex) vals\<rparr>))))))"

definition Insert :: "externals \<Rightarrow> Context \<Rightarrow> Access \<Rightarrow> Row \<Rightarrow> panic + (error option \<times> Access)" where
  "Insert E ctx tbl row =
     (case row of (row0, row1, row2, row3) \<Rightarrow>
      let branch = ToLower E (FoldExpression E row0);
          user = FoldExpression E row1;
          host = ToLower E (FoldExpression E row2);
          perms = row3
      in
      if length branch > MaxUint16 \<or> length user > MaxUint16 \<or> length host > MaxUint16
      then Inr (Some (ErrExpressionsTooLong branch user host), tbl)
      else
        (case (case ctx of
                 None \<Rightarrow> Inr None
               | Some branchAwareSession \<Rightarrow>
                   (let insertUser = GetUser branchAwareSession;
                        insertHost = GetHost branchAwareSession
                    in case Access_Match E tbl branch insertUser insertHost of
                         Inl p \<Rightarrow> Inl p
                       | Inr (_, modPerms) \<Rightarrow>
                           if modPerms AND Permissions_Admin \<noteq> Permissions_Admin
                           then Inr (Some (ErrInsertingRow insertUser insertHost branch user host perms))
                           else Inr None)) of
           Inl p \<Rightarrow> Inl p
         | Inr (Some err) \<Rightarrow> Inr (Some err, tbl)
         | Inr None \<Rightarrow>
            (case Access_Match E tbl branch user host of
               Inl p \<Rightarrow> Inl p
             | Inr (_, modPerms) \<Rightarrow>
                 if modPerms AND Permissions_Admin = Permissions_Admin
                 then Inr (Some (UniqueKeyErr branch user host modPerms), tbl)
                 else Inr (insert_tbl E tbl branch user host perms))))"

definition Update ::
  "externals \<Rightarrow> Context \<Rightarrow> Access \<Rightarrow> Row \<Rightarrow> Row \<Rightarrow> panic + (error option \<times> Access)" where
  "Update E ctx tbl old new =
     (case old of (old0, old1, old2, old3) \<Rightarrow>
      case new of (new0, new1, new2, new3) \<Rightarrow>
      let oldBranch = ToLower E (FoldExpression E old0);
          oldUser = FoldExpression E old1;
          oldHost = ToLower E (FoldExpression E old2);
          newBranch = ToLower E (FoldExpression E new0);
          newUser = FoldExpression E new1;
          newHost = ToLower E (FoldExpression E new2);
          newPerms = new3
      in
      if length newBranch > MaxUint16 \<or> length newUser > MaxUint16 \<or> length newHost > MaxUint16
      then Inr (Some (ErrExpressionsTooLong newBranch newUser newHost), tbl)
      else if (oldBranch \<noteq> newBranch \<or> oldUser \<noteq> newUser \<or> oldHost \<noteq> newHost)
              \<and> GetIndex tbl newBranch newUser newHost \<noteq> - 1
      then Inr (Some (UniqueKeyErr newBranch newUser newHost
                        (Permissions (Values tbl ! nat (GetIndex tbl newBranch newUser newHost)))),
                tbl)
      else
        (case (case ctx of
                 None \<Rightarrow> Inr None
               | Some branchAwareSession \<Rightarrow>
                   (let insertUser = GetUser branchAwareSession;
                        insertHost = GetHost branchAwareSession
                    in case Access_Match E tbl oldBranch insertUser insertHost of
                         Inl p \<Rightarrow> Inl p
                       | Inr (_, modPerms) \<Rightarrow>
                           if modPerms AND Permissions_Admin \<noteq> Permissions_Admin
                           then Inr (Some (ErrUpdatingRow insertUser insertHost
                                             oldBranch oldUser oldHost))
                           else
                             (case Access_Match E tbl newBranch insertUser insertHost of
                                Inl p \<Rightarrow> Inl p
                              | Inr (_, modPerms) \<Rightarrow>
                                  if modPerms AND Permissions_Admin \<noteq> Permissions_Admin
                                  then Inr (Some (ErrUpdatingToRow insertUser insertHost
                                                    oldBranch oldUser oldHost newBranch))
                                  else Inr None))) of
           Inl p \<Rightarrow> Inl p
         | Inr (Some err) \<Rightarrow> Inr (Some err, tbl)
         | Inr None \<Rightarrow>
            (case Access_Match E tbl newBranch newUser newHost of
               Inl p \<Rightarrow> Inl p
             | Inr (_, modPerms) \<Rightarrow>
                 if modPerms AND Permissions_Admin = Permissions_Admin
                 then Inr (Some (UniqueKeyErr newBranch newUser newHost modPerms), tbl)
                 else if GetIndex tbl oldBranch oldUser oldHost \<noteq> - 1
                 then (case delete_tbl tbl oldBranch oldUser oldHost of
                         Inl p \<Rightarrow> Inl p
                       | Inr (Some err, tbl') \<Rightarrow> Inr (Some err, tbl')
                       | Inr (None, tbl') \<Rightarrow>
                           Inr (insert_tbl E tbl' newBranch newUser newHost newPerms))
                 else Inr (insert_tbl E tbl newBranch newUser newHost newPerms))))"

definition Delete :: "externals \<Rightarrow> Context \<Rightarrow> Access \<Rightarrow> Row \<Rightarrow> panic + (error option \<times> Access)" where
  "Delete E ctx tbl row =
     (case row of (row0, row1, row2, row3) \<Rightarrow>
      let branch = ToLower E (FoldExpression E row0);
          user = FoldExpression E row1;
          host = ToLower E (FoldExpression E row2)
      in
        (case (case ctx of
                 None \<Rightarrow> Inr None
               | Some branchAwareSession \<Rightarrow>
                   (let insertUser = GetUser branchAwareSession;
                        insertHost = GetHost branchAwareSession
                    in case Access_Match E tbl branch insertUser insertHost of
                         Inl p \<Rightarrow> Inl p
                       | Inr (_, modPerms) \<Rightarrow>
                           if modPerms AND Permissions_Admin \<noteq> Permissions_Admin
                           then Inr (Some (ErrDeletingRow insertUser insertHost branch user host))
                           else Inr None)) of
           Inl p \<Rightarrow> Inl p
         | Inr (Some err) \<Rightarrow> Inr (Some err, tbl)
         | Inr None \<Rightarrow> delete_tbl tbl branch user host))"

section \<open>Invariants of the spec\<close>

text \<open>
  I1: the four slices have one length. I2: in each of the three expression columns the
  collection index of the element at position \<open>i\<close> is \<open>i\<close>, that is, the column's
  collection indexes read \<open>0, 1, \<dots>, n - 1\<close>. I3: no two rows share the folded triple.
\<close>

definition I1 :: "Access \<Rightarrow> bool" where
  "I1 tbl \<longleftrightarrow>
     length (Branches tbl) = length (Values tbl) \<and>
     length (Users tbl) = length (Values tbl) \<and>
     length (Hosts tbl) = length (Values tbl)"

definition indexesInOrder :: "MatchExpression list \<Rightarrow> bool" where
  "indexesInOrder exprs \<longleftrightarrow>
     map (\<lambda>e. unat (CollectionIndex e)) exprs = [0..<length exprs]"

definition I2 :: "Access \<Rightarrow> bool" where
  "I2 tbl \<longleftrightarrow>
     indexesInOrder (Branches tbl) \<and> indexesInOrder (Users tbl) \<and> indexesInOrder (Hosts tbl)"

definition triple :: "AccessValue \<Rightarrow> string \<times> string \<times> string" where
  "triple v = (Branch v, User v, Host v)"

definition I3 :: "Access \<Rightarrow> bool" where
  "I3 tbl \<longleftrightarrow> distinct (map triple (Values tbl))"

text \<open>
  The self-authorization test of the editor: a nil session passes; a session passes on a
  branch when \<^verbatim>\<open>Match\<close> on it with the session's user and host returns permissions
  that contain the admin bit.
\<close>

definition holdsAdmin :: "externals \<Rightarrow> Access \<Rightarrow> Context \<Rightarrow> string \<Rightarrow> bool" where
  "holdsAdmin E tbl ctx branch =
     (case ctx of
        None \<Rightarrow> True
      | Some branchAwareSession \<Rightarrow>
          (case Access_Match E tbl branch (GetUser branchAwareSession) (GetHost branchAwareSession) of
             Inl p \<Rightarrow> False
           | Inr (matched, modPerms) \<Rightarrow> modPerms AND Permissions_Admin = Permissions_Admin))"

text \<open>The bitwise OR of a list of permissions, 0 for the empty list.\<close>

definition orAll :: "Permissions list \<Rightarrow> Permissions" where
  "orAll ps = foldr (OR) ps 0"

section \<open>An instance of the missing functions\<close>

text \<open>
  Modelled from the spec: the matcher, the folder and the parser are missing from the
  sources. The spec gives the matcher SQL \<^verbatim>\<open>LIKE\<close> semantics over collation weights
  (\<^verbatim>\<open>_\<close> absorbs exactly one weight, \<^verbatim>\<open>%\<close> zero or more), has it return the
  collection index of every expression that matches, lets \<^verbatim>\<open>fold\<close> collapse runs of
  \<^verbatim>\<open>%\<close>, and lets \<^verbatim>\<open>parse\<close> fold and then map every character to its weight, the two
  wildcards to reserved sentinels. The weights here are the byte values, lowercased for
  the case-insensitive collation. This instance serves the concrete examples; the general
  theorems hold for every instance.
\<close>

definition singleMatch :: "32 word" where
  "singleMatch = - 1"

definition anyMatch :: "32 word" where
  "anyMatch = - 2"

fun FoldExpression_spec :: "string \<Rightarrow> string" where
  "FoldExpression_spec [] = []"
| "FoldExpression_spec [c] = [c]"
| "FoldExpression_spec (c # d # cs) =
     (if c = CHR ''%'' \<and> d = CHR ''%'' then FoldExpression_spec (d # cs)
      else c # FoldExpression_spec (d # cs))"

definition lowerChar :: "char \<Rightarrow> char" where
  "lowerChar c =
     (if (65::nat) \<le> of_char c \<and> of_char c \<le> (90::nat) then char_of (of_char c + (32::nat))
      else c)"

definition ToLower_ascii :: "string \<Rightarrow> string" where
  "ToLower_ascii s = map lowerChar s"

definition sortOrder :: "CollationID \<Rightarrow> char \<Rightarrow> 32 word" where
  "sortOrder collation c =
     (case collation of
        Collation_utf8mb4_0900_bin \<Rightarrow> of_nat (of_char c)
      | Collation_utf8mb4_0900_ai_ci \<Rightarrow> of_nat (of_char (lowerChar c)))"

definition ParseExpression_spec :: "string \<Rightarrow> CollationID \<Rightarrow> 32 word list" where
  "ParseExpression_spec s collation =
     map (\<lambda>c. if c = CHR ''%'' then anyMatch
              else if c = CHR ''_'' then singleMatch
              else sortOrder collation c)
         (FoldExpression_spec s)"

fun likeMatch :: "32 word list \<Rightarrow> 32 word list \<Rightarrow> bool" where
  "likeMatch [] [] = True"
| "likeMatch [] (c # cs) = False"
| "likeMatch (p # ps) [] = (p = anyMatch \<and> likeMatch ps [])"
| "likeMatch (p # ps) (c # cs) =
     (if p = anyMatch then likeMatch ps (c # cs) \<or> likeMatch (p # ps) cs
      else (p = singleMatch \<or> p = c) \<and> likeMatch ps cs)"

definition Match_spec :: "MatchExpression list \<Rightarrow> string \<Rightarrow> CollationID \<Rightarrow> 32 word list" where
  "Match_spec matchExprs str collation =
     map CollectionIndex
       (filter (\<lambda>e. likeMatch (SortOrders e) (map (sortOrder collation) str)) matchExprs)"

definition spec_externals :: externals where
  "spec_externals =
     \<lparr>Match = Match_spec, FoldExpression = FoldExpression_spec,
      ParseExpression = ParseExpression_spec, ToLower = ToLower_ascii,
      Binlog_Deserialize = (\<lambda>current serialBinlog. Inr serialBinlog)\<rparr>"

section \<open>Concrete stores and inputs\<close>

text \<open>
  The store of the spec's scenarios with superuser \<open>(root, localhost)\<close>: empty, then
  with the two rows that inserting \<open>(main, alice, %, write)\<close> and
  \<open>(dev, bob, %, admin)\<close> leaves, and what is left of those once the first is deleted.
\<close>

definition emptyStore :: Access where
  "emptyStore = newAccess ''root'' ''localhost''"

definition twoRows :: Access where
  "twoRows =
     \<lparr>binlog = [],
      Branches =
        [\<lparr>CollectionIndex = 0,
          SortOrders = ParseExpression_spec ''main'' Collation_utf8mb4_0900_ai_ci\<rparr>,
         \<lparr>CollectionIndex = 1,
          SortOrders = ParseExpression_spec ''dev'' Collation_utf8mb4_0900_ai_ci\<rparr>],
      Users =
        [\<lparr>CollectionIndex = 0,
          SortOrders = ParseExpression_spec ''alice'' Collation_utf8mb4_0900_bin\<rparr>,
         \<lparr>CollectionIndex = 1,
          SortOrders = ParseExpression_spec ''bob'' Collation_utf8mb4_0900_bin\<rparr>],
      Hosts =
        [\<lparr>CollectionIndex = 0,
          SortOrders = ParseExpression_spec ''%'' Collation_utf8mb4_0900_ai_ci\<rparr>,
         \<lparr>CollectionIndex = 1,
          SortOrders = ParseExpression_spec ''%'' Collation_utf8mb4_0900_ai_ci\<rparr>],
      Values =
        [\<lparr>Branch = ''main'', User = ''alice'', Host = ''%'', Permissions = Permissions_Write\<rparr>,
         \<lparr>Branch = ''dev'', User = ''bob'', Host = ''%'', Permissions = Permissions_Admin\<rparr>],
      SuperUser = ''root'', SuperHost = ''localhost''\<rparr>"

definition bobMoved :: Access where
  "bobMoved =
     \<lparr>binlog = [],
      Branches =
        [\<lparr>CollectionIndex = 1,
          SortOrders = ParseExpression_spec ''dev'' Collation_utf8mb4_0900_ai_ci\<rparr>],
      Users =
        [\<lparr>CollectionIndex = 1,
          SortOrders = ParseExpression_spec ''bob'' Collation_utf8mb4_0900_bin\<rparr>],
      Hosts =
        [\<lparr>CollectionIndex = 1,
          SortOrders = ParseExpression_spec ''%'' Collation_utf8mb4_0900_ai_ci\<rparr>],
      Values =
        [\<lparr>Branch = ''dev'', User = ''bob'', Host = ''%'', Permissions = Permissions_Admin\<rparr>],
      SuperUser = ''root'', SuperHost = ''localhost''\<rparr>"

text \<open>
  That store once \<open>(x, carol, %, write)\<close> is inserted into it: both rows carry
  collection index 1.
\<close>

definition carolAdded :: Access where
  "carolAdded =
     \<lparr>binlog = [],
      Branches =
        [\<lparr>CollectionIndex = 1,
          SortOrders = ParseExpression_spec ''dev'' Collation_utf8mb4_0900_ai_ci\<rparr>,
         \<lparr>CollectionIndex = 1,
          SortOrders = ParseExpression_spec ''x'' Collation_utf8mb4_0900_ai_ci\<rparr>],
      Users =
        [\<lparr>CollectionIndex = 1,
          SortOrders = ParseExpression_spec ''bob'' Collation_utf8mb4_0900_bin\<rparr>,
         \<lparr>CollectionIndex = 1,
          SortOrders = ParseExpression_spec ''carol'' Collation_utf8mb4_0900_bin\<rparr>],
      Hosts =
        [\<lparr>CollectionIndex = 1,
          SortOrders = ParseExpression_spec ''%'' Collation_utf8mb4_0900_ai_ci\<rparr>,
         \<lparr>CollectionIndex = 1,
          SortOrders = ParseExpression_spec ''%'' Collation_utf8mb4_0900_ai_ci\<rparr>],
      Values =
        [\<lparr>Branch = ''dev'', User = ''bob'', Host = ''%'', Permissions = Permissions_Admin\<rparr>,
         \<lparr>Branch = ''x'', User = ''carol'', Host = ''%'', Permissions = Permissions_Write\<rparr>],
      SuperUser = ''root'', SuperHost = ''localhost''\<rparr>"

text \<open>The store with the single row \<open>(main, alice, %, write)\<close>.\<close>

definition mainAlice :: Access where
  "mainAlice =
     \<lparr>binlog = [],
      Branches =
        [\<lparr>CollectionIndex = 0,
          SortOrders = ParseExpression_spec ''main'' Collation_utf8mb4_0900_ai_ci\<rparr>],
      Users =
        [\<lparr>CollectionIndex = 0,
          SortOrders = ParseExpression_spec ''alice'' Collation_utf8mb4_0900_bin\<rparr>],
      Hosts =
        [\<lparr>CollectionIndex = 0,
          SortOrders = ParseExpression_spec ''%'' Collation_utf8mb4_0900_ai_ci\<rparr>],
      Values =
        [\<lparr>Branch = ''main'', User = ''alice'', Host = ''%'', Permissions = Permissions_Write\<rparr>],
      SuperUser = ''root'', SuperHost = ''localhost''\<rparr>"

text \<open>A store that holds the row \<open>(main, alice, %, write)\<close> twice, against I3.\<close>

definition dupRows :: Access where
  "dupRows =
     \<lparr>binlog = [],
      Branches =
        [\<lparr>CollectionIndex = 0,
          SortOrders = ParseExpression_spec ''main'' Collation_utf8mb4_0900_ai_ci\<rparr>,
         \<lparr>CollectionIndex = 1,
          SortOrders = ParseExpression_spec ''main'' Collation_utf8mb4_0900_ai_ci\<rparr>],
      Users =
        [\<lparr>CollectionIndex = 0,
          SortOrders = ParseExpression_spec ''alice'' Collation_utf8mb4_0900_bin\<rparr>,
         \<lparr>CollectionIndex = 1,
          SortOrders = ParseExpression_spec ''alice'' Collation_utf8mb4_0900_bin\<rparr>],
      Hosts =
        [\<lparr>CollectionIndex = 0,
          SortOrders = ParseExpression_spec ''%'' Collation_utf8mb4_0900_ai_ci\<rparr>,
         \<lparr>CollectionIndex = 1,
          SortOrders = ParseExpression_spec ''%'' Collation_utf8mb4_0900_ai_ci\<rparr>],
      Values =
        [\<lparr>Branch = ''main'', User = ''alice'', Host = ''%'', Permissions = Permissions_Write\<rparr>,
         \<lparr>Branch = ''main'', User = ''alice'', Host = ''%'', Permissions = Permissions_Write\<rparr>],
      SuperUser = ''root'', SuperHost = ''localhost''\<rparr>"

text \<open>What is left of it once its first row is swapped out and dropped.\<close>

definition dupRowsLeft :: Access where
  "dupRowsLeft =
     \<lparr>binlog = [],
      Branches =
        [\<lparr>CollectionIndex = 1,
          SortOrders = ParseExpression_spec ''main'' Collation_utf8mb4_0900_ai_ci\<rparr>],
      Users =
        [\<lparr>CollectionIndex = 1,
          SortOrders = ParseExpression_spec ''alice'' Collation_utf8mb4_0900_bin\<rparr>],
      Hosts =
        [\<lparr>CollectionIndex = 1,
          SortOrders = ParseExpression_spec ''%'' Collation_utf8mb4_0900_ai_ci\<rparr>],
      Values =
        [\<lparr>Branch = ''main'', User = ''alice'', Host = ''%'', Permissions = Permissions_Write\<rparr>],
      SuperUser = ''root'', SuperHost = ''localhost''\<rparr>"

definition aliceSession :: Session where
  "aliceSession = \<lparr>GetUser = ''alice'', GetHost = ''10.0.0.1''\<rparr>"

definition bobSession :: Session where
  "bobSession = \<lparr>GetUser = ''bob'', GetHost = ''10.0.0.1''\<rparr>"

text \<open>A branch name of 65,536 bytes, one more than I5 allows.\<close>

definition oversize :: string where
  "oversize = replicate 65536 (CHR ''a'')"

definition oversizeFb :: SerialAccess where
  "oversizeFb =
     \<lparr>TryBinlog = Inr [],
      fbBranches = [\<lparr>serialIndex = 0, serialSortOrders = []\<rparr>],
      fbUsers = [\<lparr>serialIndex = 0, serialSortOrders = [anyMatch]\<rparr>],
      fbHosts = [\<lparr>serialIndex = 0, serialSortOrders = [anyMatch]\<rparr>],
      fbValues = [\<lparr>serialBranch = oversize, serialUser = ''%'', serialHost = ''%'',
                   serialPermissions = Permissions_Write\<rparr>]\<rparr>"

definition mainAliceFb :: SerialAccess where
  "mainAliceFb =
     \<lparr>TryBinlog = Inr [],
      fbBranches = [\<lparr>serialIndex = 0,
                     serialSortOrders = ParseExpression_spec ''main'' Collation_utf8mb4_0900_ai_ci\<rparr>],
      fbUsers = [\<lparr>serialIndex = 0,
                  serialSortOrders = ParseExpression_spec ''alice'' Collation_utf8mb4_0900_bin\<rparr>],
      fbHosts = [\<lparr>serialIndex = 0, serialSortOrders = [anyMatch]\<rparr>],
      fbValues = [\<lparr>serialBranch = ''main'', serialUser = ''alice'', serialHost = ''%'',
                   serialPermissions = Permissions_Write\<rparr>]\<rparr>"

text \<open>A serialized table with the row \<open>(main, alice, %, write)\<close> twice.\<close>

definition dupRowsFb :: SerialAccess where
  "dupRowsFb =
     \<lparr>TryBinlog = Inr [],
      fbBranches =
        [\<lparr>serialIndex = 0,
          serialSortOrders = ParseExpression_spec ''main'' Collation_utf8mb4_0900_ai_ci\<rparr>,
         \<lparr>serialIndex = 1,
          serialSortOrders = ParseExpression_spec ''main'' Collation_utf8mb4_0900_ai_ci\<rparr>],
      fbUsers =
        [\<lparr>serialIndex = 0,
          serialSortOrders = ParseExpression_spec ''alice'' Collation_utf8mb4_0900_bin\<rparr>,
         \<lparr>serialIndex = 1,
          serialSortOrders = ParseExpression_spec ''alice'' Collation_utf8mb4_0900_bin\<rparr>],
      fbHosts =
        [\<lparr>serialIndex = 0,
          serialSortOrders = ParseExpression_spec ''%'' Collation_utf8mb4_0900_ai_ci\<rparr>,
         \<lparr>serialIndex = 1,
          serialSortOrders = ParseExpression_spec ''%'' Collation_utf8mb4_0900_ai_ci\<rparr>],
      fbValues =
        [\<lparr>serialBranch = ''main'', serialUser = ''alice'', serialHost = ''%'',
          serialPermissions = Permissions_Write\<rparr>,
         \<lparr>serialBranch = ''main'', serialUser = ''alice'', serialHost = ''%'',
          serialPermissions = Permissions_Write\<rparr>]\<rparr>"

section \<open>Auxiliary facts\<close>

subsection \<open>The loops of the matcher pipeline\<close>

lemma filterLoop_in_range:
  "\<forall>i\<in>set filters. unat i < length exprs \<Longrightarrow>
     filterLoop exprs filters = Inr (map (\<lambda>i. exprs ! unat i) filters)"
  by (induction filters) simp_all

lemma filterLoop_out_of_range:
  "\<exists>i\<in>set filters. \<not> unat i < length exprs \<Longrightarrow> filterLoop exprs filters = Inl IndexOutOfRange"
  by (induction filters) (auto split: sum.splits)

lemma gatherLoop_in_range:
  "\<forall>i\<in>set idxs. unat i < length vals \<Longrightarrow>
     gatherLoop vals idxs perms =
       Inr (perms OR orAll (map (\<lambda>i. Permissions (vals ! unat i)) idxs))"
proof (induction idxs arbitrary: perms)
  case Nil
  then show ?case by (simp add: orAll_def)
next
  case (Cons i idxs)
  then show ?case by (simp add: orAll_def or.assoc)
qed

lemma filterHosts_in_range:
  "\<forall>i\<in>set filters. unat i < length (Hosts tbl) \<Longrightarrow>
     filterHosts tbl filters = Inr (map (\<lambda>i. Hosts tbl ! unat i) filters)"
  by (cases filters) (simp_all add: filterHosts_def filterLoop_in_range del: filterLoop.simps)

lemma filterBranches_in_range:
  "\<forall>i\<in>set filters. unat i < length (Branches tbl) \<Longrightarrow>
     filterBranches tbl filters = Inr (map (\<lambda>i. Branches tbl ! unat i) filters)"
  by (cases filters) (simp_all add: filterBranches_def filterLoop_in_range del: filterLoop.simps)

lemma gatherPermissions_in_range:
  "\<forall>i\<in>set idxs. unat i < length (Values tbl) \<Longrightarrow>
     gatherPermissions tbl idxs = Inr (orAll (map (\<lambda>i. Permissions (Values tbl ! unat i)) idxs))"
  by (simp add: gatherPermissions_def gatherLoop_in_range)


text \<open>
  On a store that satisfies I1 and I2, and with a matcher that returns collection indexes
  of the expressions it is given only, every index stays in range and the query returns.
\<close>

lemma indexesInOrder_bound:
  assumes "indexesInOrder exprs" and "e \<in> set exprs"
  shows "unat (CollectionIndex e) < length exprs"
proof -
  from assms(2) have "unat (CollectionIndex e) \<in> set (map (\<lambda>e. unat (CollectionIndex e)) exprs)"
    by auto
  with assms(1) have "unat (CollectionIndex e) \<in> set [0..<length exprs]"
    by (simp add: indexesInOrder_def)
  then show ?thesis by simp
qed

lemma indexesInOrder_nth:
  assumes "indexesInOrder exprs" and "k < length exprs"
  shows "unat (CollectionIndex (exprs ! k)) = k"
proof -
  from assms(2) have "map (\<lambda>e. unat (CollectionIndex e)) exprs ! k =
                        unat (CollectionIndex (exprs ! k))"
    by simp
  moreover from assms have "map (\<lambda>e. unat (CollectionIndex e)) exprs ! k = k"
    by (simp add: indexesInOrder_def del: nth_map)
  ultimately show ?thesis by simp
qed

lemma indexesInOrder_own_index:
  assumes "indexesInOrder exprs" and "unat i < length exprs"
  shows "CollectionIndex (exprs ! unat i) = i"
  using indexesInOrder_nth [OF assms] by (simp add: word_unat_eq_iff)

lemma wellformed_in_range:
  assumes "I1 tbl" and "I2 tbl"
    and sound: "\<And>exprs str collation.
                  set (Match E exprs str collation) \<subseteq> CollectionIndex ` set exprs"
  shows "\<forall>i\<in>set (Match E (Users tbl) user Collation_utf8mb4_0900_bin).
            unat i < length (Hosts tbl)"
    and "\<forall>i\<in>set (Match E (map (\<lambda>i. Hosts tbl ! unat i) survUsers) host
                        Collation_utf8mb4_0900_ai_ci).
            (\<forall>j\<in>set survUsers. unat j < length (Hosts tbl)) \<longrightarrow> unat i < length (Branches tbl)"
    and "\<forall>i\<in>set (Match E (map (\<lambda>i. Branches tbl ! unat i) survHosts) branch
                        Collation_utf8mb4_0900_ai_ci).
            (\<forall>j\<in>set survHosts. unat j < length (Branches tbl)) \<longrightarrow> unat i < length (Values tbl)"
proof -
  from assms(1,2) have len: "length (Users tbl) = length (Hosts tbl)"
    "length (Hosts tbl) = length (Branches tbl)" "length (Branches tbl) = length (Values tbl)"
    and ord: "indexesInOrder (Users tbl)" "indexesInOrder (Hosts tbl)"
    "indexesInOrder (Branches tbl)"
    by (simp_all add: I1_def I2_def)
  show "\<forall>i\<in>set (Match E (Users tbl) user Collation_utf8mb4_0900_bin).
            unat i < length (Hosts tbl)"
    using sound [of "Users tbl" user Collation_utf8mb4_0900_bin]
      indexesInOrder_bound [OF ord(1)] len(1) by auto
  show "\<forall>i\<in>set (Match E (map (\<lambda>i. Hosts tbl ! unat i) survUsers) host
                        Collation_utf8mb4_0900_ai_ci).
            (\<forall>j\<in>set survUsers. unat j < length (Hosts tbl)) \<longrightarrow> unat i < length (Branches tbl)"
  proof (intro ballI impI)
    fix i
    assume i: "i \<in> set (Match E (map (\<lambda>i. Hosts tbl ! unat i) survUsers) host
                        Collation_utf8mb4_0900_ai_ci)"
      and r: "\<forall>j\<in>set survUsers. unat j < length (Hosts tbl)"
    from i sound [of "map (\<lambda>i. Hosts tbl ! unat i) survUsers" host Collation_utf8mb4_0900_ai_ci]
    obtain j where j: "j \<in> set survUsers" and ij: "i = CollectionIndex (Hosts tbl ! unat j)"
      by auto
    from r j have "Hosts tbl ! unat j \<in> set (Hosts tbl)" by simp
    from indexesInOrder_bound [OF ord(2) this] ij len(2) show "unat i < length (Branches tbl)"
      by simp
  qed
  show "\<forall>i\<in>set (Match E (map (\<lambda>i. Branches tbl ! unat i) survHosts) branch
                        Collation_utf8mb4_0900_ai_ci).
            (\<forall>j\<in>set survHosts. unat j < length (Branches tbl)) \<longrightarrow> unat i < length (Values tbl)"
  proof (intro ballI impI)
    fix i
    assume i: "i \<in> set (Match E (map (\<lambda>i. Branches tbl ! unat i) survHosts) branch
                        Collation_utf8mb4_0900_ai_ci)"
      and r: "\<forall>j\<in>set survHosts. unat j < length (Branches tbl)"
    from i sound [of "map (\<lambda>i. Branches tbl ! unat i) survHosts" branch
        Collation_utf8mb4_0900_ai_ci]
    obtain j where j: "j \<in> set survHosts" and ij: "i = CollectionIndex (Branches tbl ! unat j)"
      by auto
    from r j have "Branches tbl ! unat j \<in> set (Branches tbl)" by simp
    from indexesInOrder_bound [OF ord(3) this] ij len(3) show "unat i < length (Values tbl)"
      by simp
  qed
qed

lemma Access_Match_returns_on_wellformed:
  assumes "I1 tbl" and "I2 tbl"
    and sound: "\<And>exprs str collation.
                  set (Match E exprs str collation) \<subseteq> CollectionIndex ` set exprs"
  shows "\<exists>matched perms. Access_Match E tbl branch user host = Inr (matched, perms)"
proof (cases "SuperUser tbl = user \<and> SuperHost tbl = host")
  case True
  then have "Access_Match E tbl branch user host = Inr (True, Permissions_Admin)"
    by (simp add: Access_Match_def)
  then show ?thesis by blast
next
  case False
  define survUsers where "survUsers = Match E (Users tbl) user Collation_utf8mb4_0900_bin"
  define survHosts where "survHosts =
    Match E (map (\<lambda>i. Hosts tbl ! unat i) survUsers) host Collation_utf8mb4_0900_ai_ci"
  define surv where "surv =
    Match E (map (\<lambda>i. Branches tbl ! unat i) survHosts) branch Collation_utf8mb4_0900_ai_ci"
  note w = wellformed_in_range [OF assms(1,2) sound]
  from w(1) have r1: "\<forall>i\<in>set survUsers. unat i < length (Hosts tbl)"
    by (simp add: survUsers_def)
  from w(2) [of survUsers host] r1 have r2: "\<forall>i\<in>set survHosts. unat i < length (Branches tbl)"
    by (simp add: survHosts_def)
  from w(3) [of survHosts branch] r2 have r3: "\<forall>i\<in>set surv. unat i < length (Values tbl)"
    by (simp add: surv_def)
  from False filterHosts_in_range [OF r1] filterBranches_in_range [OF r2]
    gatherPermissions_in_range [OF r3]
  show ?thesis
    unfolding Access_Match_def survUsers_def survHosts_def surv_def
    by (auto simp add: Let_def)
qed

subsection \<open>Looking up, appending and removing rows\<close>

lemma GetIndexLoop_absent:
  "0 \<le> i \<Longrightarrow>
     (GetIndexLoop vals i b u h = - 1) = ((b, u, h) \<notin> set (map triple vals))"
  by (induction vals arbitrary: i) (auto simp add: triple_def)

lemma GetIndexLoop_found:
  "0 \<le> i \<Longrightarrow> GetIndexLoop vals i b u h \<noteq> - 1 \<Longrightarrow>
     i \<le> GetIndexLoop vals i b u h \<and> GetIndexLoop vals i b u h < i + int (length vals) \<and>
     triple (vals ! nat (GetIndexLoop vals i b u h - i)) = (b, u, h)"
proof (induction vals arbitrary: i)
  case Nil
  then show ?case by simp
next
  case (Cons v vals)
  show ?case
  proof (cases "Branch v = b \<and> User v = u \<and> Host v = h")
    case True
    then show ?thesis by (simp add: triple_def)
  next
    case False
    with Cons.prems have ne: "GetIndexLoop vals (i + 1) b u h \<noteq> - 1" by auto
    from Cons.prems have "0 \<le> i + 1" by simp
    from Cons.IH [OF this ne] False Cons.prems(1) show ?thesis
      by (auto simp add: nat_diff_distrib' nat_add_distrib)
  qed
qed

lemma GetIndex_absent:
  "(GetIndex tbl b u h = - 1) = ((b, u, h) \<notin> set (map triple (Values tbl)))"
  by (simp add: GetIndex_def GetIndexLoop_absent)

lemma GetIndex_found:
  assumes "GetIndex tbl b u h \<noteq> - 1"
  shows "0 \<le> GetIndex tbl b u h" and "nat (GetIndex tbl b u h) < length (Values tbl)"
    and "triple (Values tbl ! nat (GetIndex tbl b u h)) = (b, u, h)"
  using GetIndexLoop_found [of 0 "Values tbl" b u h] assms
  by (auto simp add: GetIndex_def)

lemma insert_tbl_absent:
  "GetIndex tbl branch user host = - 1 \<Longrightarrow>
   insert_tbl E tbl branch user host perms =
     (None,
      tbl\<lparr>Branches := Branches tbl @
             [\<lparr>CollectionIndex = of_nat (length (Values tbl)),
               SortOrders = ParseExpression E branch Collation_utf8mb4_0900_ai_ci\<rparr>],
          Users := Users tbl @
             [\<lparr>CollectionIndex = of_nat (length (Values tbl)),
               SortOrders = ParseExpression E user Collation_utf8mb4_0900_bin\<rparr>],
          Hosts := Hosts tbl @
             [\<lparr>CollectionIndex = of_nat (length (Values tbl)),
               SortOrders = ParseExpression E host Collation_utf8mb4_0900_ai_ci\<rparr>],
          Values := Values tbl @
             [\<lparr>Branch = branch, User = user, Host = host, Permissions = perms\<rparr>]\<rparr>)"
  by (simp add: insert_tbl_def Let_def)

lemma insert_tbl_present:
  "GetIndex tbl branch user host \<noteq> - 1 \<Longrightarrow>
   insert_tbl E tbl branch user host perms =
     (Some (UniqueKeyErr branch user host
              (Permissions (Values tbl ! nat (GetIndex tbl branch user host)))), tbl)"
  by (simp add: insert_tbl_def Let_def)

lemma insert_tbl_error_unchanged:
  "insert_tbl E tbl branch user host perms = (Some e, tbl') \<Longrightarrow> tbl' = tbl"
  by (cases "GetIndex tbl branch user host = - 1") (simp_all add: insert_tbl_absent insert_tbl_present)

lemma delete_tbl_no_error:
  "delete_tbl tbl branch user host = Inr (err, tbl') \<Longrightarrow> err = None"
  by (auto simp add: delete_tbl_def Let_def split: if_splits sum.splits)

lemma delete_tbl_Values:
  assumes "delete_tbl tbl branch user host = Inr (err, tbl')"
    and "GetIndex tbl branch user host \<noteq> - 1"
  shows "Values tbl' =
           take (length (Values tbl) - 1)
             ((Values tbl)[nat (GetIndex tbl branch user host) :=
                             Values tbl ! (length (Values tbl) - 1),
                           length (Values tbl) - 1 :=
                             Values tbl ! nat (GetIndex tbl branch user host)])"
  using assms
  by (auto simp add: delete_tbl_def Let_def swapElems_def nat_diff_distrib' split: if_splits sum.splits)


lemma swap_take_nth:
  assumes "k < length vs" and "j < length vs - 1"
  shows "take (length vs - 1) (vs[k := vs ! (length vs - 1), length vs - 1 := vs ! k]) ! j =
           (if j = k then vs ! (length vs - 1) else vs ! j)"
  using assms by (simp add: nth_list_update)

lemma swap_take_subset:
  assumes "k < length vs"
  shows "set (take (length vs - 1) (vs[k := vs ! (length vs - 1), length vs - 1 := vs ! k]))
           \<subseteq> set vs"
proof
  fix y
  assume "y \<in> set (take (length vs - 1) (vs[k := vs ! (length vs - 1), length vs - 1 := vs ! k]))"
  then obtain j where j: "j < length vs - 1"
    and y: "y = take (length vs - 1) (vs[k := vs ! (length vs - 1), length vs - 1 := vs ! k]) ! j"
    by (auto simp add: in_set_conv_nth)
  from y swap_take_nth [OF assms j] have "y = (if j = k then vs ! (length vs - 1) else vs ! j)"
    by simp
  with j assms show "y \<in> set vs" by (auto split: if_splits)
qed

lemma swap_take_removes:
  assumes k: "k < length vs" and d: "distinct (map f vs)"
  shows "f (vs ! k) \<notin>
           f ` set (take (length vs - 1) (vs[k := vs ! (length vs - 1), length vs - 1 := vs ! k]))"
proof
  assume "f (vs ! k) \<in>
            f ` set (take (length vs - 1) (vs[k := vs ! (length vs - 1), length vs - 1 := vs ! k]))"
  then obtain y where yin: "y \<in> set (take (length vs - 1)
                              (vs[k := vs ! (length vs - 1), length vs - 1 := vs ! k]))"
    and fy: "f (vs ! k) = f y" by auto
  from yin obtain j where j: "j < length vs - 1"
    and y: "y = take (length vs - 1) (vs[k := vs ! (length vs - 1), length vs - 1 := vs ! k]) ! j"
    by (auto simp add: in_set_conv_nth)
  define j' where "j' = (if j = k then length vs - 1 else j)"
  from y swap_take_nth [OF k j] have yj: "y = vs ! j'" by (simp add: j'_def)
  from j k have j'lt: "j' < length vs" and j'ne: "j' \<noteq> k" by (auto simp add: j'_def)
  from fy yj have "map f vs ! k = map f vs ! j'" using k j'lt by simp
  moreover have "k < length (map f vs)" and "j' < length (map f vs)" using k j'lt by simp_all
  ultimately have "k = j'" using d nth_eq_iff_index_eq [of "map f vs" k j'] by blast
  with j'ne show False by simp
qed

lemma delete_tbl_removes:
  assumes del: "delete_tbl tbl b u h = Inr (err, tbl')" and "I3 tbl"
  shows "GetIndex tbl' b u h = - 1"
proof (cases "GetIndex tbl b u h = - 1")
  case True
  with del have "tbl' = tbl" by (simp add: delete_tbl_def)
  with True show ?thesis by simp
next
  case False
  note fnd = GetIndex_found [OF False]
  from delete_tbl_Values [OF del False] have v: "Values tbl' =
      take (length (Values tbl) - 1)
        ((Values tbl)[nat (GetIndex tbl b u h) := Values tbl ! (length (Values tbl) - 1),
                      length (Values tbl) - 1 := Values tbl ! nat (GetIndex tbl b u h)])" .
  from swap_take_removes [OF fnd(2), of triple] \<open>I3 tbl\<close>
  have "(b, u, h) \<notin> triple ` set (Values tbl')"
    unfolding v fnd(3) by (simp add: I3_def)
  then show ?thesis by (simp add: GetIndex_absent)
qed

lemma delete_tbl_keeps_absent:
  assumes del: "delete_tbl tbl b u h = Inr (err, tbl')" and "GetIndex tbl b' u' h' = - 1"
  shows "GetIndex tbl' b' u' h' = - 1"
proof (cases "GetIndex tbl b u h = - 1")
  case True
  with del have "tbl' = tbl" by (simp add: delete_tbl_def)
  with assms(2) show ?thesis by simp
next
  case False
  note fnd = GetIndex_found [OF False]
  from delete_tbl_Values [OF del False] swap_take_subset [OF fnd(2)]
  have "set (Values tbl') \<subseteq> set (Values tbl)" by simp
  with assms(2) show ?thesis by (auto simp add: GetIndex_absent)
qed

lemma Insert_error_unchanged:
  "Insert E ctx tbl row = Inr (Some e, tbl') \<Longrightarrow> tbl' = tbl"
  by (auto simp add: Insert_def Let_def
      split: prod.splits option.splits sum.splits if_splits
      dest: insert_tbl_error_unchanged)

lemma Delete_error_unchanged:
  "Delete E ctx tbl row = Inr (Some e, tbl') \<Longrightarrow> tbl' = tbl"
  by (auto simp add: Delete_def Let_def
      split: prod.splits option.splits sum.splits if_splits
      dest: delete_tbl_no_error)

lemma delete_then_insert_succeeds:
  assumes "I3 tbl" and "delete_tbl tbl ob ou oh = Inr (err, t1)"
    and "(ob = nb \<and> ou = nu \<and> oh = nh) \<or> GetIndex tbl nb nu nh = - 1"
  shows "insert_tbl E t1 nb nu nh np \<noteq> (Some e, tbl')"
proof -
  from assms have "GetIndex t1 nb nu nh = - 1"
    using delete_tbl_removes [OF assms(2,1)] delete_tbl_keeps_absent [OF assms(2)] by blast
  then show ?thesis by (simp add: insert_tbl_absent)
qed

lemma Update_error_unchanged:
  assumes "I3 tbl" and "Update E ctx tbl old new = Inr (Some e, tbl')"
  shows "tbl' = tbl"
  using assms(2)
  apply (simp add: Update_def Let_def split: prod.splits)
  apply (auto split: if_splits option.splits sum.splits prod.splits
      dest: insert_tbl_error_unchanged delete_tbl_no_error
      simp add: delete_then_insert_succeeds [OF assms(1)])
  done

text \<open>The editor keeps I3: from the empty store it never builds a store that holds a triple twice.\<close>

lemma insert_tbl_I3:
  assumes "I3 tbl" and "insert_tbl E tbl branch user host perms = (err, tbl')"
  shows "I3 tbl'"
proof (cases "GetIndex tbl branch user host = - 1")
  case True
  from insert_tbl_absent [OF True, of E perms] assms(2)
  have "Values tbl' = Values tbl @
          [\<lparr>Branch = branch, User = user, Host = host, Permissions = perms\<rparr>]"
    by auto
  moreover from True have "(branch, user, host) \<notin> set (map triple (Values tbl))"
    by (simp add: GetIndex_absent)
  ultimately show ?thesis using assms(1) by (simp add: I3_def triple_def)
next
  case False
  from insert_tbl_present [OF False, of E perms] assms show ?thesis by simp
qed

lemma delete_tbl_I3:
  assumes "I3 tbl" and "delete_tbl tbl branch user host = Inr (err, tbl')"
  shows "I3 tbl'"
proof (cases "GetIndex tbl branch user host = - 1")
  case True
  with assms show ?thesis by (simp add: delete_tbl_def)
next
  case False
  note fnd = GetIndex_found [OF False]
  define k where "k = nat (GetIndex tbl branch user host)"
  define n where "n = length (Values tbl) - 1"
  from fnd(2) have k: "k < length (Values tbl)" and n: "n < length (Values tbl)"
    by (simp_all add: k_def n_def)
  from delete_tbl_Values [OF assms(2) False]
  have v: "Values tbl' = take n ((Values tbl)[k := Values tbl ! n, n := Values tbl ! k])"
    by (simp add: k_def n_def)
  have "map triple ((Values tbl)[k := Values tbl ! n, n := Values tbl ! k]) =
          (map triple (Values tbl))[k := map triple (Values tbl) ! n,
                                    n := map triple (Values tbl) ! k]"
    using k n by (simp add: map_update)
  moreover have "distinct ((map triple (Values tbl))[k := map triple (Values tbl) ! n,
                                    n := map triple (Values tbl) ! k])"
    using assms(1) k n distinct_swap [of k "map triple (Values tbl)" n]
    by (simp only: I3_def length_map)
  ultimately have "distinct (map triple ((Values tbl)[k := Values tbl ! n, n := Values tbl ! k]))"
    by simp
  then have "distinct (take n (map triple ((Values tbl)[k := Values tbl ! n, n := Values tbl ! k])))"
    by (rule distinct_take)
  then show ?thesis by (simp add: I3_def v take_map)
qed

lemma editor_preserves_I3:
  assumes "I3 tbl"
  shows "Insert E ctx tbl row = Inr (err, tbl') \<Longrightarrow> I3 tbl'"
    and "Update E ctx tbl old new = Inr (err, tbl') \<Longrightarrow> I3 tbl'"
    and "Delete E ctx tbl row = Inr (err, tbl') \<Longrightarrow> I3 tbl'"
proof -
  show "Insert E ctx tbl row = Inr (err, tbl') \<Longrightarrow> I3 tbl'"
    using assms
    by (auto simp add: Insert_def Let_def
        split: prod.splits option.splits sum.splits if_splits dest: insert_tbl_I3)
  show "Delete E ctx tbl row = Inr (err, tbl') \<Longrightarrow> I3 tbl'"
    using assms
    by (auto simp add: Delete_def Let_def
        split: prod.splits option.splits sum.splits if_splits dest: delete_tbl_I3)
  show "Update E ctx tbl old new = Inr (err, tbl') \<Longrightarrow> I3 tbl'"
    using assms
    apply (simp add: Update_def Let_def split: prod.splits)
    apply (auto split: if_splits option.splits sum.splits prod.splits
        dest: insert_tbl_I3 delete_tbl_I3)
    done
qed

lemma emptyStore_I3: "I3 (newAccess superUser superHost)"
  by (simp add: I3_def newAccess_def)

subsection \<open>Evaluating the instance\<close>

lemmas spec_eval =
  spec_externals_def Match_spec_def ParseExpression_spec_def ToLower_ascii_def sortOrder_def
  lowerChar_def anyMatch_def singleMatch_def

lemma FoldExpression_spec_replicate:
  "c \<noteq> CHR ''%'' \<Longrightarrow> FoldExpression_spec (replicate n c) = replicate n c"
proof (induction n)
  case 0
  then show ?case by simp
next
  case (Suc n)
  then show ?case by (cases n) simp_all
qed

lemma oversize_folded:
  "ToLower spec_externals (FoldExpression spec_externals oversize) = oversize"
  by (simp add: spec_externals_def oversize_def FoldExpression_spec_replicate ToLower_ascii_def
      lowerChar_def)

lemma oversize_length: "length oversize = 65536"
  by (simp add: oversize_def)

lemma holdsAdmin_None: "holdsAdmin E tbl None branch"
  by (simp add: holdsAdmin_def)

lemma write_not_admin: "Permissions_Write AND Permissions_Admin \<noteq> Permissions_Admin"
  by (simp add: Permissions_Write_def Permissions_Admin_def)

lemma admin_is_admin: "Permissions_Admin AND Permissions_Admin = Permissions_Admin"
  by simp

lemma zero_not_admin: "0 AND Permissions_Admin \<noteq> Permissions_Admin"
  by (simp add: Permissions_Admin_def)

lemmas match_eval =
  Access_Match_def filterHosts_def filterBranches_def gatherPermissions_def spec_eval

lemma spec_folds:
  "ToLower spec_externals (FoldExpression spec_externals ''main'') = ''main''"
  "ToLower spec_externals (FoldExpression spec_externals ''dev'') = ''dev''"
  "ToLower spec_externals (FoldExpression spec_externals ''x'') = ''x''"
  "ToLower spec_externals (FoldExpression spec_externals ''%'') = ''%''"
  "ToLower spec_externals (FoldExpression spec_externals ''h2'') = ''h2''"
  "FoldExpression spec_externals ''alice'' = ''alice''"
  "FoldExpression spec_externals ''bob'' = ''bob''"
  "FoldExpression spec_externals ''carol'' = ''carol''"
  by (simp_all add: spec_eval)

lemma emptyStore_no_match:
  "Access_Match spec_externals emptyStore branch ''alice'' ''10.0.0.1'' = Inr (False, 0)"
  by (simp add: Access_Match_def emptyStore_def newAccess_def filterHosts_def filterBranches_def
      gatherPermissions_def spec_eval)

lemma emptyStore_insert_mainAlice:
  "Insert spec_externals None emptyStore (''main'', ''alice'', ''%'', Permissions_Write) =
     Inr (None, mainAlice)"
proof -
  have f: "ToLower spec_externals (FoldExpression spec_externals ''main'') = ''main''"
    "FoldExpression spec_externals ''alice'' = ''alice''"
    "ToLower spec_externals (FoldExpression spec_externals ''%'') = ''%''"
    by (simp_all add: spec_eval)
  have m: "Access_Match spec_externals emptyStore ''main'' ''alice'' ''%'' = Inr (False, 0)"
    by (simp add: Access_Match_def emptyStore_def newAccess_def filterHosts_def filterBranches_def
      gatherPermissions_def spec_eval)
  have i: "insert_tbl spec_externals emptyStore ''main'' ''alice'' ''%'' Permissions_Write =
             (None, mainAlice)"
    by (simp add: insert_tbl_def GetIndex_def emptyStore_def newAccess_def mainAlice_def
        spec_externals_def)
  show ?thesis
    unfolding Insert_def
    by (simp add: f m i MaxUint16_def Permissions_Admin_def Let_def)
qed

lemma twoRows_bob_admin:
  "Access_Match spec_externals twoRows ''dev'' ''bob'' ''10.0.0.1'' = Inr (True, Permissions_Admin)"
  by (simp add: Access_Match_def twoRows_def filterHosts_def filterBranches_def
      gatherPermissions_def spec_eval)

lemma twoRows_alice_write:
  "Access_Match spec_externals twoRows ''main'' ''alice'' ''10.0.0.1'' = Inr (True, Permissions_Write)"
  by (simp add: Access_Match_def twoRows_def filterHosts_def filterBranches_def
      gatherPermissions_def spec_eval)

lemma twoRows_bob_main:
  "Access_Match spec_externals twoRows ''main'' ''bob'' ''10.0.0.1'' = Inr (False, 0)"
  by (simp add: twoRows_def match_eval)

lemma twoRows_alice_dev:
  "Access_Match spec_externals twoRows ''dev'' ''alice'' ''10.0.0.1'' = Inr (False, 0)"
  by (simp add: twoRows_def match_eval)

lemma twoRows_carol:
  "Access_Match spec_externals twoRows branch ''carol'' host = Inr (False, 0)"
  by (simp add: twoRows_def match_eval)

lemma twoRows_bob_h2:
  "Access_Match spec_externals twoRows ''dev'' ''bob'' ''h2'' = Inr (True, Permissions_Admin)"
  by (simp add: twoRows_def match_eval)

lemma dupRows_alice:
  "Access_Match spec_externals dupRows ''main'' ''alice'' ''%'' = Inr (True, Permissions_Write)"
  by (simp add: dupRows_def match_eval)

lemma twoRows_I3: "I3 twoRows"
  by (simp add: I3_def twoRows_def triple_def)

lemma twoRows_GetIndex:
  "GetIndex twoRows ''dev'' ''carol'' ''%'' = - 1"
  "GetIndex twoRows ''main'' ''carol'' ''%'' = - 1"
  "GetIndex twoRows ''x'' ''bob'' ''%'' = - 1"
  "GetIndex twoRows ''dev'' ''bob'' ''h2'' = - 1"
  "GetIndex twoRows ''dev'' ''bob'' ''%'' = 1"
  "GetIndex twoRows ''main'' ''alice'' ''%'' = 0"
  by (simp_all add: GetIndex_def twoRows_def)

lemma Match_spec_sound:
  "set (Match spec_externals exprs str collation) \<subseteq> CollectionIndex ` set exprs"
  by (auto simp add: spec_externals_def Match_spec_def)

lemma admin_nonzero: "Permissions_Admin \<noteq> 0" "0 \<noteq> Permissions_Admin"
  by (simp_all add: Permissions_Admin_def)

lemma twoRows_reached:
  "Insert spec_externals None mainAlice (''dev'', ''bob'', ''%'', Permissions_Admin) =
     Inr (None, twoRows)"
proof -
  have m: "Access_Match spec_externals mainAlice ''dev'' ''bob'' ''%'' = Inr (False, 0)"
    by (simp add: mainAlice_def match_eval)
  have i: "insert_tbl spec_externals mainAlice ''dev'' ''bob'' ''%'' Permissions_Admin =
             (None, twoRows)"
    by (simp add: insert_tbl_def GetIndex_def mainAlice_def twoRows_def spec_externals_def)
  show ?thesis
    unfolding Insert_def
    by (simp add: spec_folds m i MaxUint16_def admin_nonzero Let_def)
qed

lemma dupRows_deserialized:
  "Deserialize spec_externals emptyStore dupRowsFb = (None, dupRows)"
  by (simp add: Deserialize_def emptyStore_def newAccess_def dupRowsFb_def dupRows_def
      spec_externals_def deserializeMatchExpression_def deserializeAccessValue_def)

lemma twoRows_wellformed: "I1 twoRows" "I2 twoRows"
  by (simp_all add: I1_def I2_def indexesInOrder_def twoRows_def)

lemma bobMoved_insert_carol:
  "Insert spec_externals None bobMoved (''x'', ''carol'', ''%'', Permissions_Write) =
     Inr (None, carolAdded)"
proof -
  have m: "Access_Match spec_externals bobMoved ''x'' ''carol'' ''%'' = Inr (False, 0)"
    by (simp add: bobMoved_def match_eval)
  have i: "insert_tbl spec_externals bobMoved ''x'' ''carol'' ''%'' Permissions_Write =
             (None, carolAdded)"
    by (simp add: insert_tbl_def GetIndex_def bobMoved_def carolAdded_def spec_externals_def)
  show ?thesis
    unfolding Insert_def
    by (simp add: spec_folds m i MaxUint16_def admin_nonzero Let_def)
qed

lemma carolAdded_bob_x:
  "Access_Match spec_externals carolAdded ''x'' ''bob'' ''10.0.0.1'' =
     Inr (True, Permissions_Write)"
  by (simp add: carolAdded_def match_eval)

section \<open>Claims\<close>

text \<open>
  C1: the claim is that \<^verbatim>\<open>delete\<close> reassigns the collection index of the row it moves
  into the freed position, so that I2 survives every delete. The function swaps and
  shrinks the four slices and reassigns nothing. Inserting \<open>(main, alice, %, write)\<close>
  and \<open>(dev, bob, %, admin)\<close> into the empty store gives \<open>twoRows\<close>, which satisfies
  I1 and I2; deleting its first row leaves \<open>bobMoved\<close>, whose only row sits at
  position 0 and carries collection index 1.
\<close>

theorem delete_leaves_stale_index:
  "Insert spec_externals None emptyStore (''main'', ''alice'', ''%'', Permissions_Write) =
     Inr (None, mainAlice) \<and>
   Insert spec_externals None mainAlice (''dev'', ''bob'', ''%'', Permissions_Admin) =
     Inr (None, twoRows) \<and>
   I1 twoRows \<and> I2 twoRows \<and>
   delete_tbl twoRows ''main'' ''alice'' ''%'' = Inr (None, bobMoved) \<and>
   \<not> I2 bobMoved \<and>
   map CollectionIndex (Branches bobMoved) = [1] \<and>
   map CollectionIndex (Users bobMoved) = [1] \<and>
   map CollectionIndex (Hosts bobMoved) = [1]"
proof -
  have d: "I1 twoRows \<and> I2 twoRows \<and>
   delete_tbl twoRows ''main'' ''alice'' ''%'' = Inr (None, bobMoved) \<and>
   \<not> I2 bobMoved \<and>
   map CollectionIndex (Branches bobMoved) = [1] \<and>
   map CollectionIndex (Users bobMoved) = [1] \<and>
   map CollectionIndex (Hosts bobMoved) = [1]"
    by (simp add: I1_def I2_def indexesInOrder_def delete_tbl_def twoRows_def bobMoved_def
        GetIndex_def swapElems_def)
  show ?thesis
    by (rule conjI [OF emptyStore_insert_mainAlice conjI [OF twoRows_reached d]])
qed

text \<open>
  C2, as amended: \<^verbatim>\<open>Deserialize\<close> returns an error exactly when the store already
  holds a value, or the four serialized vectors differ in length, or the journal cannot be
  read or deserialized. An error leaves the store as it was; otherwise the four slices are
  the decoded vectors. The length of the strings plays no part.
\<close>

theorem Deserialize_errors:
  "(fst (Deserialize E tbl fb) \<noteq> None \<longleftrightarrow>
      length (Values tbl) \<noteq> 0 \<or>
      length (fbBranches fb) \<noteq> length (fbUsers fb) \<or>
      length (fbUsers fb) \<noteq> length (fbHosts fb) \<or>
      length (fbHosts fb) \<noteq> length (fbValues fb) \<or>
      (\<exists>err. TryBinlog fb = Inl err) \<or>
      (\<exists>serialBinlog err. TryBinlog fb = Inr serialBinlog \<and>
          Binlog_Deserialize E (binlog tbl) serialBinlog = Inl err)) \<and>
   (fst (Deserialize E tbl fb) \<noteq> None \<longrightarrow> snd (Deserialize E tbl fb) = tbl) \<and>
   (fst (Deserialize E tbl fb) = None \<longrightarrow>
      Branches (snd (Deserialize E tbl fb)) = map deserializeMatchExpression (fbBranches fb) \<and>
      Users (snd (Deserialize E tbl fb)) = map deserializeMatchExpression (fbUsers fb) \<and>
      Hosts (snd (Deserialize E tbl fb)) = map deserializeMatchExpression (fbHosts fb) \<and>
      Values (snd (Deserialize E tbl fb)) = map deserializeAccessValue (fbValues fb))"
  by (auto simp add: Deserialize_def split: sum.splits)

theorem Deserialize_errors_witness:
  "fst (Deserialize spec_externals emptyStore mainAliceFb) = None \<and>
   Values (snd (Deserialize spec_externals emptyStore mainAliceFb)) =
     [\<lparr>Branch = ''main'', User = ''alice'', Host = ''%'', Permissions = Permissions_Write\<rparr>] \<and>
   fst (Deserialize spec_externals mainAlice mainAliceFb) \<noteq> None \<and>
   snd (Deserialize spec_externals mainAlice mainAliceFb) = mainAlice"
proof -
  have ok: "\<not> (length (Values emptyStore) \<noteq> 0 \<or>
      length (fbBranches mainAliceFb) \<noteq> length (fbUsers mainAliceFb) \<or>
      length (fbUsers mainAliceFb) \<noteq> length (fbHosts mainAliceFb) \<or>
      length (fbHosts mainAliceFb) \<noteq> length (fbValues mainAliceFb) \<or>
      (\<exists>err. TryBinlog mainAliceFb = Inl err) \<or>
      (\<exists>serialBinlog err. TryBinlog mainAliceFb = Inr serialBinlog \<and>
          Binlog_Deserialize spec_externals (binlog emptyStore) serialBinlog = Inl err))"
    by (simp add: emptyStore_def newAccess_def mainAliceFb_def spec_externals_def)
  have v: "map deserializeAccessValue (fbValues mainAliceFb) =
     [\<lparr>Branch = ''main'', User = ''alice'', Host = ''%'', Permissions = Permissions_Write\<rparr>]"
    by (simp add: mainAliceFb_def deserializeAccessValue_def)
  have ne: "length (Values mainAlice) \<noteq> 0"
    by (simp add: mainAlice_def)
  from Deserialize_errors [of spec_externals emptyStore mainAliceFb] ok
  have 1: "fst (Deserialize spec_externals emptyStore mainAliceFb) = None" by blast
  with Deserialize_errors [of spec_externals emptyStore mainAliceFb] v
  have 2: "Values (snd (Deserialize spec_externals emptyStore mainAliceFb)) =
     [\<lparr>Branch = ''main'', User = ''alice'', Host = ''%'', Permissions = Permissions_Write\<rparr>]"
    by simp
  from Deserialize_errors [of spec_externals mainAlice mainAliceFb] ne
  have 3: "fst (Deserialize spec_externals mainAlice mainAliceFb) \<noteq> None" by blast
  with Deserialize_errors [of spec_externals mainAlice mainAliceFb]
  have 4: "snd (Deserialize spec_externals mainAlice mainAliceFb) = mainAlice" by blast
  from 1 2 3 4 show ?thesis by blast
qed

text \<open>
  The claim as stated makes a violation of I5 an error. A serialized table whose single
  row has a branch of 65,536 bytes, with four vectors of one length, deserializes into the
  empty store without error, and the store then holds the oversize string.
\<close>

theorem Deserialize_oversize_counterexample:
  "length (Values emptyStore) = 0 \<and>
   length (fbBranches oversizeFb) = length (fbValues oversizeFb) \<and>
   length (fbUsers oversizeFb) = length (fbValues oversizeFb) \<and>
   length (fbHosts oversizeFb) = length (fbValues oversizeFb) \<and>
   length (serialBranch (fbValues oversizeFb ! 0)) = 65536 \<and>
   fst (Deserialize spec_externals emptyStore oversizeFb) = None \<and>
   length (Branch (Values (snd (Deserialize spec_externals emptyStore oversizeFb)) ! 0)) = 65536"
  by (simp add: Deserialize_def emptyStore_def newAccess_def oversizeFb_def spec_externals_def
      deserializeAccessValue_def oversize_length)

text \<open>
  C3, as amended: on a store that satisfies I1 and I2, with a matcher that returns
  collection indexes of the expressions it is given only, and for a query that is not the
  superuser pair, \<^verbatim>\<open>Match\<close> matches the users first, then the hosts of the surviving
  rows, then the branches of those survivors, and returns whether any index survived
  together with the bitwise OR of the permissions of the surviving rows (0 when there are
  none). The survivors of each pass are among those of the pass before, and each is the
  position of a row.
\<close>

theorem Access_Match_pipeline:
  assumes "I1 tbl" and "I2 tbl"
    and "\<forall>exprs str collation.
           set (Match E exprs str collation) \<subseteq> CollectionIndex ` set exprs"
    and "\<not> (user = SuperUser tbl \<and> host = SuperHost tbl)"
    and "survUsers = Match E (Users tbl) user Collation_utf8mb4_0900_bin"
    and "survHosts = Match E (map (\<lambda>i. Hosts tbl ! unat i) survUsers) host
                       Collation_utf8mb4_0900_ai_ci"
    and "surv = Match E (map (\<lambda>i. Branches tbl ! unat i) survHosts) branch
                  Collation_utf8mb4_0900_ai_ci"
  shows "Access_Match E tbl branch user host =
           Inr (surv \<noteq> [], orAll (map (\<lambda>i. Permissions (Values tbl ! unat i)) surv)) \<and>
         set surv \<subseteq> set survHosts \<and> set survHosts \<subseteq> set survUsers \<and>
         (\<forall>i\<in>set survUsers. unat i < length (Values tbl))"
proof -
  from assms(3) have sound: "\<And>exprs str collation.
      set (Match E exprs str collation) \<subseteq> CollectionIndex ` set exprs"
    by blast
  from assms(1,2) have len: "length (Users tbl) = length (Values tbl)"
    "length (Hosts tbl) = length (Values tbl)" "length (Branches tbl) = length (Values tbl)"
    and ord: "indexesInOrder (Users tbl)" "indexesInOrder (Hosts tbl)"
    "indexesInOrder (Branches tbl)"
    by (simp_all add: I1_def I2_def)
  note w = wellformed_in_range [OF assms(1,2) sound]
  from w(1) have r1: "\<forall>i\<in>set survUsers. unat i < length (Hosts tbl)"
    by (simp add: assms(5))
  from w(2) [of survUsers host] r1 have r2: "\<forall>i\<in>set survHosts. unat i < length (Branches tbl)"
    by (simp add: assms(6))
  from w(3) [of survHosts branch] r2 have r3: "\<forall>i\<in>set surv. unat i < length (Values tbl)"
    by (simp add: assms(7))
  have s1: "set survHosts \<subseteq> set survUsers"
  proof
    fix i
    assume "i \<in> set survHosts"
    with sound [of "map (\<lambda>i. Hosts tbl ! unat i) survUsers" host Collation_utf8mb4_0900_ai_ci]
    obtain j where j: "j \<in> set survUsers" and ij: "i = CollectionIndex (Hosts tbl ! unat j)"
      unfolding assms(6) by auto
    from r1 j have "unat j < length (Hosts tbl)" by simp
    from indexesInOrder_own_index [OF ord(2) this] ij j show "i \<in> set survUsers" by simp
  qed
  have s2: "set surv \<subseteq> set survHosts"
  proof
    fix i
    assume "i \<in> set surv"
    with sound [of "map (\<lambda>i. Branches tbl ! unat i) survHosts" branch
        Collation_utf8mb4_0900_ai_ci]
    obtain j where j: "j \<in> set survHosts" and ij: "i = CollectionIndex (Branches tbl ! unat j)"
      unfolding assms(7) by auto
    from r2 j have "unat j < length (Branches tbl)" by simp
    from indexesInOrder_own_index [OF ord(3) this] ij j show "i \<in> set survHosts" by simp
  qed
  have h: "filterHosts tbl survUsers = Inr (map (\<lambda>i. Hosts tbl ! unat i) survUsers)"
    using r1 by (rule filterHosts_in_range)
  have b: "filterBranches tbl survHosts = Inr (map (\<lambda>i. Branches tbl ! unat i) survHosts)"
    using r2 by (rule filterBranches_in_range)
  have g: "gatherPermissions tbl surv =
             Inr (orAll (map (\<lambda>i. Permissions (Values tbl ! unat i)) surv))"
    using r3 by (rule gatherPermissions_in_range)
  from assms(4) have ns: "\<not> (SuperUser tbl = user \<and> SuperHost tbl = host)" by auto
  have m: "Access_Match E tbl branch user host =
           Inr (surv \<noteq> [], orAll (map (\<lambda>i. Permissions (Values tbl ! unat i)) surv))"
    using ns h b g unfolding Access_Match_def assms(5,6,7) by (auto simp add: Let_def)
  from r1 len have r0: "\<forall>i\<in>set survUsers. unat i < length (Values tbl)" by simp
  from m s1 s2 r0 show ?thesis by blast
qed

theorem Access_Match_pipeline_witness:
  "Access_Match spec_externals twoRows ''dev'' ''bob'' ''10.0.0.1'' = Inr (True, Permissions_Admin)"
proof -
  have u: "[1] = Match spec_externals (Users twoRows) ''bob'' Collation_utf8mb4_0900_bin"
    by (simp add: twoRows_def spec_eval)
  have h: "[1] = Match spec_externals (map (\<lambda>i. Hosts twoRows ! unat i) [1::32 word])
                   ''10.0.0.1'' Collation_utf8mb4_0900_ai_ci"
    by (simp add: twoRows_def spec_eval)
  have b: "[1] = Match spec_externals (map (\<lambda>i. Branches twoRows ! unat i) [1::32 word])
                   ''dev'' Collation_utf8mb4_0900_ai_ci"
    by (simp add: twoRows_def spec_eval)
  have s: "\<not> (''bob'' = SuperUser twoRows \<and> ''10.0.0.1'' = SuperHost twoRows)"
    by (simp add: twoRows_def)
  have snd: "\<forall>exprs str collation.
           set (Match spec_externals exprs str collation) \<subseteq> CollectionIndex ` set exprs"
    using Match_spec_sound by blast
  from Access_Match_pipeline [OF twoRows_wellformed snd s u h b]
  have "Access_Match spec_externals twoRows ''dev'' ''bob'' ''10.0.0.1'' =
          Inr ([1::32 word] \<noteq> [],
               orAll (map (\<lambda>i. Permissions (Values twoRows ! unat i)) [1::32 word]))"
    by (rule conjunct1)
  then show ?thesis
    by (simp add: orAll_def twoRows_def)
qed

text \<open>
  The claim as stated, for every store, fails on the stores that \<^verbatim>\<open>delete\<close> leaves
  with a stale collection index. On \<open>bobMoved\<close>, what deleting \<open>(main, alice, %)\<close>
  from \<open>twoRows\<close> leaves, the user column answers collection index 1 for \<open>bob\<close>, the
  host column has one element, and the query panics instead of returning. On
  \<open>carolAdded\<close>, that store with \<open>(x, carol, %, write)\<close> inserted, the query
  \<open>(x, bob)\<close> returns \<open>(true, WRITE)\<close> from carol's row, although no row has user
  \<open>bob\<close> and branch \<open>x\<close>.
\<close>

theorem Access_Match_pipeline_counterexample:
  "delete_tbl twoRows ''main'' ''alice'' ''%'' = Inr (None, bobMoved) \<and>
   SuperUser bobMoved \<noteq> ''bob'' \<and>
   Access_Match spec_externals bobMoved ''dev'' ''bob'' ''10.0.0.1'' = Inl IndexOutOfRange \<and>
   Insert spec_externals None bobMoved (''x'', ''carol'', ''%'', Permissions_Write) =
     Inr (None, carolAdded) \<and>
   map triple (Values carolAdded) = [(''dev'', ''bob'', ''%''), (''x'', ''carol'', ''%'')] \<and>
   SuperUser carolAdded \<noteq> ''bob'' \<and>
   Access_Match spec_externals carolAdded ''x'' ''bob'' ''10.0.0.1'' =
     Inr (True, Permissions_Write)"
proof -
  have a: "delete_tbl twoRows ''main'' ''alice'' ''%'' = Inr (None, bobMoved) \<and>
   SuperUser bobMoved \<noteq> ''bob'' \<and>
   Access_Match spec_externals bobMoved ''dev'' ''bob'' ''10.0.0.1'' = Inl IndexOutOfRange"
    by (simp add: Access_Match_def delete_tbl_def twoRows_def bobMoved_def GetIndex_def
      swapElems_def spec_externals_def Match_spec_def filterHosts_def ParseExpression_spec_def
      sortOrder_def lowerChar_def anyMatch_def singleMatch_def)
  have c: "map triple (Values carolAdded) = [(''dev'', ''bob'', ''%''), (''x'', ''carol'', ''%'')] \<and>
   SuperUser carolAdded \<noteq> ''bob''"
    by (simp add: carolAdded_def triple_def)
  note a1 = a [THEN conjunct1] and a2 = a [THEN conjunct2, THEN conjunct1]
    and a3 = a [THEN conjunct2, THEN conjunct2]
    and c1 = c [THEN conjunct1] and c2 = c [THEN conjunct2]
  show ?thesis
    by (intro conjI a1 a2 a3 bobMoved_insert_carol c1 c2 carolAdded_bob_x)
qed

text \<open>
  C4: for every store, also one with no rules at all, a query whose user equals
  \<^verbatim>\<open>SuperUser\<close> and whose host equals \<^verbatim>\<open>SuperHost\<close> (string equality) is answered
  \<open>(true, ADMIN)\<close> for every branch and for every matcher: the rule table is not read.
\<close>

theorem Match_superuser_shortcircuit:
  "user = SuperUser tbl \<Longrightarrow> host = SuperHost tbl \<Longrightarrow>
     Access_Match E tbl branch user host = Inr (True, Permissions_Admin)"
  by (simp add: Access_Match_def)

theorem Match_superuser_shortcircuit_witness:
  "Access_Match spec_externals emptyStore ''main'' ''root'' ''localhost'' =
     Inr (True, Permissions_Admin)"
proof -
  have u: "''root'' = SuperUser emptyStore"
    by (simp add: emptyStore_def newAccess_def)
  have h: "''localhost'' = SuperHost emptyStore"
    by (simp add: emptyStore_def newAccess_def)
  show ?thesis
    by (rule Match_superuser_shortcircuit [OF u h])
qed

text \<open>
  C5, as amended: when the folded strings of the new row fit in 65,535 bytes and the
  session is nil or holds the admin bit on the folded branch, and \<^verbatim>\<open>Match\<close> on the
  store over the folded branch, user and host returns permissions that contain the admin
  bit, then \<^verbatim>\<open>Insert\<close> returns the unique-key error and the store is the one before
  the call.
\<close>

theorem Insert_subsumed_rejected:
  assumes "branch = ToLower E (FoldExpression E row0)"
    and "user = FoldExpression E row1"
    and "host = ToLower E (FoldExpression E row2)"
    and "length branch \<le> MaxUint16" and "length user \<le> MaxUint16"
    and "length host \<le> MaxUint16"
    and "holdsAdmin E tbl ctx branch"
    and "Access_Match E tbl branch user host = Inr (matched, modPerms)"
    and "modPerms AND Permissions_Admin = Permissions_Admin"
  shows "Insert E ctx tbl (row0, row1, row2, row3) =
           Inr (Some (UniqueKeyErr branch user host modPerms), tbl)"
  using assms
  by (auto simp add: Insert_def Let_def holdsAdmin_def split: option.splits sum.splits prod.splits)

theorem Insert_subsumed_rejected_witness:
  "Insert spec_externals None twoRows (''dev'', ''bob'', ''10.0.0.1'', Permissions_Write) =
     Inr (Some (UniqueKeyErr ''dev'' ''bob'' ''10.0.0.1'' Permissions_Admin), twoRows)"
proof -
  have b: "''dev'' = ToLower spec_externals (FoldExpression spec_externals ''dev'')"
    by (simp add: spec_eval)
  have u: "''bob'' = FoldExpression spec_externals ''bob''"
    by (simp add: spec_eval)
  have h: "''10.0.0.1'' = ToLower spec_externals (FoldExpression spec_externals ''10.0.0.1'')"
    by (simp add: spec_eval)
  have l: "length ''dev'' \<le> MaxUint16" "length ''bob'' \<le> MaxUint16"
    "length ''10.0.0.1'' \<le> MaxUint16"
    by (simp_all add: MaxUint16_def)
  show ?thesis
    by (rule Insert_subsumed_rejected [OF b u h l holdsAdmin_None twoRows_bob_admin admin_is_admin])
qed

text \<open>
  The claim as stated covers every insert attempt. With the session \<open>(alice, 10.0.0.1)\<close>,
  which holds nothing on the empty store, the row \<open>(main, root, localhost, write)\<close> is
  matched with the admin bit (the superuser pair), and the insert is rejected by the
  self-authorization that comes first, with \<^verbatim>\<open>ErrInsertingRow\<close>, not with the unique-key
  error.
\<close>

theorem Insert_subsumed_counterexample:
  "Access_Match spec_externals emptyStore
     (ToLower spec_externals (FoldExpression spec_externals ''main''))
     (FoldExpression spec_externals ''root'')
     (ToLower spec_externals (FoldExpression spec_externals ''localhost'')) =
     Inr (True, Permissions_Admin) \<and>
   Insert spec_externals (Some aliceSession) emptyStore
     (''main'', ''root'', ''localhost'', Permissions_Write) =
     Inr (Some (ErrInsertingRow ''alice'' ''10.0.0.1'' ''main'' ''root'' ''localhost''
                  Permissions_Write), emptyStore)"
proof -
  have f: "ToLower spec_externals (FoldExpression spec_externals ''main'') = ''main''"
    "FoldExpression spec_externals ''root'' = ''root''"
    "ToLower spec_externals (FoldExpression spec_externals ''localhost'') = ''localhost''"
    by (simp_all add: spec_eval)
  have s: "Access_Match spec_externals emptyStore ''main'' ''root'' ''localhost'' =
             Inr (True, Permissions_Admin)"
    by (simp add: Access_Match_def emptyStore_def newAccess_def)
  have a: "Access_Match spec_externals emptyStore ''main'' ''alice'' ''10.0.0.1'' = Inr (False, 0)"
    by (rule emptyStore_no_match)
  have "Insert spec_externals (Some aliceSession) emptyStore
     (''main'', ''root'', ''localhost'', Permissions_Write) =
     Inr (Some (ErrInsertingRow ''alice'' ''10.0.0.1'' ''main'' ''root'' ''localhost''
                  Permissions_Write), emptyStore)"
    unfolding Insert_def
    by (simp add: f a aliceSession_def MaxUint16_def Permissions_Admin_def Let_def)
  with s f show ?thesis by simp
qed

text \<open>
  C6, as amended: on a store that holds no folded triple twice (I3), whenever the editor's
  \<^verbatim>\<open>Insert\<close>, \<^verbatim>\<open>Update\<close> or \<^verbatim>\<open>Delete\<close> returns an error, the store after the
  call is the store before it, the four slices included.
\<close>

theorem rejected_edit_leaves_store:
  assumes "I3 tbl"
  shows "(Insert E ctx tbl row = Inr (Some err, tbl') \<longrightarrow> tbl' = tbl) \<and>
         (Update E ctx tbl old new = Inr (Some err, tbl') \<longrightarrow> tbl' = tbl) \<and>
         (Delete E ctx tbl row = Inr (Some err, tbl') \<longrightarrow> tbl' = tbl)"
  using Insert_error_unchanged [of E ctx tbl row err tbl']
    Update_error_unchanged [OF assms, of E ctx old new err tbl']
    Delete_error_unchanged [of E ctx tbl row err tbl']
  by blast

theorem rejected_edit_leaves_store_witness:
  "I3 twoRows \<and>
   Insert spec_externals (Some aliceSession) twoRows
       (''dev'', ''carol'', ''%'', Permissions_Write) =
     Inr (Some (ErrInsertingRow ''alice'' ''10.0.0.1'' ''dev'' ''carol'' ''%'' Permissions_Write),
          twoRows) \<and>
   Update spec_externals (Some aliceSession) twoRows
       (''main'', ''alice'', ''%'', Permissions_Write)
       (''dev'', ''carol'', ''%'', Permissions_Write) =
     Inr (Some (ErrUpdatingRow ''alice'' ''10.0.0.1'' ''main'' ''alice'' ''%''), twoRows) \<and>
   Delete spec_externals (Some aliceSession) twoRows
       (''dev'', ''bob'', ''%'', Permissions_Write) =
     Inr (Some (ErrDeletingRow ''alice'' ''10.0.0.1'' ''dev'' ''bob'' ''%''), twoRows)"
proof -
  have i: "\<exists>t. Insert spec_externals (Some aliceSession) twoRows
       (''dev'', ''carol'', ''%'', Permissions_Write) =
     Inr (Some (ErrInsertingRow ''alice'' ''10.0.0.1'' ''dev'' ''carol'' ''%'' Permissions_Write), t)"
    unfolding Insert_def
    by (simp add: spec_folds twoRows_alice_dev aliceSession_def MaxUint16_def
        Permissions_Admin_def Let_def)
  have u: "\<exists>t. Update spec_externals (Some aliceSession) twoRows
       (''main'', ''alice'', ''%'', Permissions_Write)
       (''dev'', ''carol'', ''%'', Permissions_Write) =
     Inr (Some (ErrUpdatingRow ''alice'' ''10.0.0.1'' ''main'' ''alice'' ''%''), t)"
    unfolding Update_def
    by (simp add: spec_folds twoRows_alice_write twoRows_GetIndex aliceSession_def MaxUint16_def
        write_not_admin Let_def)
  have d: "\<exists>t. Delete spec_externals (Some aliceSession) twoRows
       (''dev'', ''bob'', ''%'', Permissions_Write) =
     Inr (Some (ErrDeletingRow ''alice'' ''10.0.0.1'' ''dev'' ''bob'' ''%''), t)"
    unfolding Delete_def
    by (simp add: spec_folds twoRows_alice_dev aliceSession_def Permissions_Admin_def Let_def)
  from i u d rejected_edit_leaves_store [OF twoRows_I3] twoRows_I3
  show ?thesis by metis
qed

text \<open>
  The claim as stated covers every store. \<^verbatim>\<open>Update\<close> deletes the old row and then
  calls \<^verbatim>\<open>insert\<close>, which can still return the duplicate-key error: on \<open>dupRows\<close>,
  which holds \<open>(main, alice, %)\<close> twice (\<^verbatim>\<open>Deserialize\<close> accepts such a table),
  updating that row to itself removes the first copy, finds the second and returns the
  error with one row gone.
\<close>

theorem rejected_edit_leaves_store_counterexample:
  "Deserialize spec_externals emptyStore dupRowsFb = (None, dupRows) \<and>
   \<not> I3 dupRows \<and>
   Update spec_externals None dupRows
       (''main'', ''alice'', ''%'', Permissions_Write)
       (''main'', ''alice'', ''%'', Permissions_Write) =
     Inr (Some (UniqueKeyErr ''main'' ''alice'' ''%'' Permissions_Write), dupRowsLeft) \<and>
   length (Values dupRows) = 2 \<and> length (Values dupRowsLeft) = 1"
proof -
  have d: "\<not> I3 dupRows" "length (Values dupRows) = 2" "length (Values dupRowsLeft) = 1"
    by (simp_all add: I3_def dupRows_def dupRowsLeft_def triple_def)
  have g: "GetIndex dupRows ''main'' ''alice'' ''%'' = 0"
    by (simp add: GetIndex_def dupRows_def)
  have del: "delete_tbl dupRows ''main'' ''alice'' ''%'' = Inr (None, dupRowsLeft)"
    by (simp add: delete_tbl_def GetIndex_def swapElems_def dupRows_def dupRowsLeft_def)
  have ins: "insert_tbl spec_externals dupRowsLeft ''main'' ''alice'' ''%'' Permissions_Write =
       (Some (UniqueKeyErr ''main'' ''alice'' ''%'' Permissions_Write), dupRowsLeft)"
    by (simp add: insert_tbl_def GetIndex_def dupRowsLeft_def)
  have "Update spec_externals None dupRows
       (''main'', ''alice'', ''%'', Permissions_Write)
       (''main'', ''alice'', ''%'', Permissions_Write) =
     Inr (Some (UniqueKeyErr ''main'' ''alice'' ''%'' Permissions_Write), dupRowsLeft)"
    unfolding Update_def
    by (simp add: spec_folds dupRows_alice g del ins MaxUint16_def write_not_admin Let_def)
  with d dupRows_deserialized show ?thesis by simp
qed

text \<open>
  C7, as amended: for an \<^verbatim>\<open>Update\<close> with a session whose new strings fit in 65,535
  bytes and whose new triple is the old one or is absent from the store, \<^verbatim>\<open>Match\<close> is
  evaluated on the store before any change, first on the old folded branch and then on
  the new one, with the session's user and host. Without the admin bit on the old branch
  the result is \<^verbatim>\<open>ErrUpdatingRow\<close>; with it there but not on the new branch the result
  is \<^verbatim>\<open>ErrUpdatingToRow\<close>; in both cases the store is unchanged. With the admin bit
  on both, the only error left is the unique-key error.
\<close>

theorem Update_authorization_order:
  assumes "oldBranch = ToLower E (FoldExpression E old0)"
    and "oldUser = FoldExpression E old1"
    and "oldHost = ToLower E (FoldExpression E old2)"
    and "newBranch = ToLower E (FoldExpression E new0)"
    and "newUser = FoldExpression E new1"
    and "newHost = ToLower E (FoldExpression E new2)"
    and "length newBranch \<le> MaxUint16" and "length newUser \<le> MaxUint16"
    and "length newHost \<le> MaxUint16"
    and "(oldBranch = newBranch \<and> oldUser = newUser \<and> oldHost = newHost)
           \<or> GetIndex tbl newBranch newUser newHost = - 1"
    and "Access_Match E tbl oldBranch (GetUser s) (GetHost s) = Inr (m1, p1)"
  shows "(p1 AND Permissions_Admin \<noteq> Permissions_Admin \<longrightarrow>
            Update E (Some s) tbl (old0, old1, old2, old3) (new0, new1, new2, new3) =
              Inr (Some (ErrUpdatingRow (GetUser s) (GetHost s) oldBranch oldUser oldHost), tbl)) \<and>
         (p1 AND Permissions_Admin = Permissions_Admin \<and>
          Access_Match E tbl newBranch (GetUser s) (GetHost s) = Inr (m2, p2) \<and>
          p2 AND Permissions_Admin \<noteq> Permissions_Admin \<longrightarrow>
            Update E (Some s) tbl (old0, old1, old2, old3) (new0, new1, new2, new3) =
              Inr (Some (ErrUpdatingToRow (GetUser s) (GetHost s) oldBranch oldUser oldHost
                           newBranch), tbl)) \<and>
         (p1 AND Permissions_Admin = Permissions_Admin \<and>
          Access_Match E tbl newBranch (GetUser s) (GetHost s) = Inr (m2, p2) \<and>
          p2 AND Permissions_Admin = Permissions_Admin \<longrightarrow>
            (\<forall>err tbl'.
               Update E (Some s) tbl (old0, old1, old2, old3) (new0, new1, new2, new3) =
                 Inr (Some err, tbl') \<longrightarrow>
               (\<exists>perms. err = UniqueKeyErr newBranch newUser newHost perms)))"
proof -
  have 1: "p1 AND Permissions_Admin \<noteq> Permissions_Admin \<longrightarrow>
            Update E (Some s) tbl (old0, old1, old2, old3) (new0, new1, new2, new3) =
              Inr (Some (ErrUpdatingRow (GetUser s) (GetHost s) oldBranch oldUser oldHost), tbl)"
    using assms
    by (auto simp add: Update_def Let_def split: option.splits sum.splits prod.splits)
  have 2: "p1 AND Permissions_Admin = Permissions_Admin \<and>
          Access_Match E tbl newBranch (GetUser s) (GetHost s) = Inr (m2, p2) \<and>
          p2 AND Permissions_Admin \<noteq> Permissions_Admin \<longrightarrow>
            Update E (Some s) tbl (old0, old1, old2, old3) (new0, new1, new2, new3) =
              Inr (Some (ErrUpdatingToRow (GetUser s) (GetHost s) oldBranch oldUser oldHost
                           newBranch), tbl)"
    using assms
    by (auto simp add: Update_def Let_def split: option.splits sum.splits prod.splits)
  have 3: "p1 AND Permissions_Admin = Permissions_Admin \<and>
          Access_Match E tbl newBranch (GetUser s) (GetHost s) = Inr (m2, p2) \<and>
          p2 AND Permissions_Admin = Permissions_Admin \<longrightarrow>
            (\<forall>err tbl'.
               Update E (Some s) tbl (old0, old1, old2, old3) (new0, new1, new2, new3) =
                 Inr (Some err, tbl') \<longrightarrow>
               (\<exists>perms. err = UniqueKeyErr newBranch newUser newHost perms))"
    using assms
    by (auto simp add: Update_def Let_def insert_tbl_def
        split: option.splits sum.splits prod.splits if_splits dest: delete_tbl_no_error)
  from 1 2 3 show ?thesis by blast
qed

theorem Update_authorization_order_witness:
  "Update spec_externals (Some aliceSession) twoRows
       (''main'', ''alice'', ''%'', Permissions_Write)
       (''dev'', ''carol'', ''%'', Permissions_Write) =
     Inr (Some (ErrUpdatingRow ''alice'' ''10.0.0.1'' ''main'' ''alice'' ''%''), twoRows) \<and>
   Update spec_externals (Some bobSession) twoRows
       (''dev'', ''bob'', ''%'', Permissions_Admin)
       (''main'', ''carol'', ''%'', Permissions_Write) =
     Inr (Some (ErrUpdatingToRow ''bob'' ''10.0.0.1'' ''dev'' ''bob'' ''%'' ''main''), twoRows) \<and>
   Update spec_externals (Some bobSession) twoRows
       (''dev'', ''bob'', ''%'', Permissions_Admin)
       (''dev'', ''bob'', ''h2'', Permissions_Write) =
     Inr (Some (UniqueKeyErr ''dev'' ''bob'' ''h2'' Permissions_Admin), twoRows)"
proof -
  have l: "length ''dev'' \<le> MaxUint16" "length ''main'' \<le> MaxUint16"
    "length ''carol'' \<le> MaxUint16" "length ''%'' \<le> MaxUint16"
    "length ''bob'' \<le> MaxUint16" "length ''h2'' \<le> MaxUint16"
    by (simp_all add: MaxUint16_def)
  have a: "Access_Match spec_externals twoRows ''main'' (GetUser aliceSession)
             (GetHost aliceSession) = Inr (True, Permissions_Write)"
    by (simp add: aliceSession_def twoRows_alice_write)
  have bd: "Access_Match spec_externals twoRows ''dev'' (GetUser bobSession)
             (GetHost bobSession) = Inr (True, Permissions_Admin)"
    by (simp add: bobSession_def twoRows_bob_admin)
  have bm: "Access_Match spec_externals twoRows ''main'' (GetUser bobSession)
             (GetHost bobSession) = Inr (False, 0)"
    by (simp add: bobSession_def twoRows_bob_main)
  have p1: "(''main'' = ''dev'' \<and> ''alice'' = ''carol'' \<and> ''%'' = ''%'')
              \<or> GetIndex twoRows ''dev'' ''carol'' ''%'' = - 1"
    by (simp add: twoRows_GetIndex)
  have p2: "(''dev'' = ''main'' \<and> ''bob'' = ''carol'' \<and> ''%'' = ''%'')
              \<or> GetIndex twoRows ''main'' ''carol'' ''%'' = - 1"
    by (simp add: twoRows_GetIndex)
  have p3: "(''dev'' = ''dev'' \<and> ''bob'' = ''bob'' \<and> ''%'' = ''h2'')
              \<or> GetIndex twoRows ''dev'' ''bob'' ''h2'' = - 1"
    by (simp add: twoRows_GetIndex)
  have 1: "Update spec_externals (Some aliceSession) twoRows
       (''main'', ''alice'', ''%'', Permissions_Write)
       (''dev'', ''carol'', ''%'', Permissions_Write) =
     Inr (Some (ErrUpdatingRow (GetUser aliceSession) (GetHost aliceSession)
                  ''main'' ''alice'' ''%''), twoRows)"
    using Update_authorization_order [OF spec_folds(1) [symmetric] spec_folds(6) [symmetric]
        spec_folds(4) [symmetric] spec_folds(2) [symmetric] spec_folds(8) [symmetric]
        spec_folds(4) [symmetric] l(1) l(3) l(4) p1 a]
      write_not_admin
    by blast
  have 2: "Update spec_externals (Some bobSession) twoRows
       (''dev'', ''bob'', ''%'', Permissions_Admin)
       (''main'', ''carol'', ''%'', Permissions_Write) =
     Inr (Some (ErrUpdatingToRow (GetUser bobSession) (GetHost bobSession)
                  ''dev'' ''bob'' ''%'' ''main''), twoRows)"
    using Update_authorization_order [OF spec_folds(2) [symmetric] spec_folds(7) [symmetric]
        spec_folds(4) [symmetric] spec_folds(1) [symmetric] spec_folds(8) [symmetric]
        spec_folds(4) [symmetric] l(2) l(3) l(4) p2 bd, where ?m2.0 = False and ?p2.0 = 0]
      admin_is_admin bm zero_not_admin
    by blast
  have e3: "\<exists>err t. Update spec_externals (Some bobSession) twoRows
       (''dev'', ''bob'', ''%'', Permissions_Admin)
       (''dev'', ''bob'', ''h2'', Permissions_Write) = Inr (Some err, t) \<and> t = twoRows"
    unfolding Update_def
    by (simp add: spec_folds twoRows_bob_admin twoRows_bob_h2 twoRows_GetIndex bobSession_def
        MaxUint16_def Let_def)
  then obtain err where e: "Update spec_externals (Some bobSession) twoRows
       (''dev'', ''bob'', ''%'', Permissions_Admin)
       (''dev'', ''bob'', ''h2'', Permissions_Write) = Inr (Some err, twoRows)"
    by blast
  from Update_authorization_order [OF spec_folds(2) [symmetric] spec_folds(7) [symmetric]
        spec_folds(4) [symmetric] spec_folds(2) [symmetric] spec_folds(7) [symmetric]
        spec_folds(5) [symmetric] l(1) l(5) l(6) p3 bd,
        where ?m2.0 = True and ?p2.0 = Permissions_Admin]
      admin_is_admin bd e
  obtain perms where pe: "err = UniqueKeyErr ''dev'' ''bob'' ''h2'' perms"
    by blast
  have "Update spec_externals (Some bobSession) twoRows
       (''dev'', ''bob'', ''%'', Permissions_Admin)
       (''dev'', ''bob'', ''h2'', Permissions_Write) =
     Inr (Some (UniqueKeyErr ''dev'' ''bob'' ''h2'' Permissions_Admin), twoRows)"
    unfolding Update_def
    by (simp add: spec_folds twoRows_bob_admin twoRows_bob_h2 twoRows_GetIndex bobSession_def
        MaxUint16_def Let_def)
  with 1 2 pe show ?thesis
    by (simp add: aliceSession_def bobSession_def)
qed

text \<open>
  The claim as stated covers every \<^verbatim>\<open>Update\<close> with a session. The length check and
  the uniqueness check come first: the session \<open>(alice, 10.0.0.1)\<close> holds no admin bit
  on \<open>main\<close>, yet an update to an oversize branch returns
  \<^verbatim>\<open>ErrExpressionsTooLong\<close> and an update to the existing triple \<open>(dev, bob, %)\<close>
  returns the unique-key error, neither of them \<^verbatim>\<open>ErrUpdatingRow\<close>.
\<close>

theorem Update_authorization_order_counterexample:
  "Access_Match spec_externals emptyStore ''main'' ''alice'' ''10.0.0.1'' = Inr (False, 0) \<and>
   Update spec_externals (Some aliceSession) emptyStore
       (''main'', ''alice'', ''%'', Permissions_Write)
       (oversize, ''alice'', ''%'', Permissions_Write) =
     Inr (Some (ErrExpressionsTooLong oversize ''alice'' ''%''), emptyStore) \<and>
   Access_Match spec_externals twoRows ''main'' ''alice'' ''10.0.0.1'' =
     Inr (True, Permissions_Write) \<and>
   Update spec_externals (Some aliceSession) twoRows
       (''main'', ''alice'', ''%'', Permissions_Write)
       (''dev'', ''bob'', ''%'', Permissions_Write) =
     Inr (Some (UniqueKeyErr ''dev'' ''bob'' ''%'' Permissions_Admin), twoRows)"
proof -
  have 1: "Update spec_externals (Some aliceSession) emptyStore
       (''main'', ''alice'', ''%'', Permissions_Write)
       (oversize, ''alice'', ''%'', Permissions_Write) =
     Inr (Some (ErrExpressionsTooLong oversize ''alice'' ''%''), emptyStore)"
    unfolding Update_def
    by (simp add: spec_folds oversize_folded oversize_length MaxUint16_def Let_def)
  have v: "Permissions (Values twoRows ! Suc 0) = Permissions_Admin"
    by (simp add: twoRows_def)
  have 2: "Update spec_externals (Some aliceSession) twoRows
       (''main'', ''alice'', ''%'', Permissions_Write)
       (''dev'', ''bob'', ''%'', Permissions_Write) =
     Inr (Some (UniqueKeyErr ''dev'' ''bob'' ''%'' Permissions_Admin), twoRows)"
    unfolding Update_def
    by (simp add: spec_folds twoRows_GetIndex v MaxUint16_def Let_def)
  from 1 2 emptyStore_no_match twoRows_alice_write show ?thesis by simp
qed

text \<open>
  C8, as amended: a successful \<^verbatim>\<open>Insert\<close> appends the folded row to
  \<^verbatim>\<open>Values\<close> and one match expression, indexed with the previous number of rows, to
  each of \<^verbatim>\<open>Branches\<close>, \<^verbatim>\<open>Users\<close> and \<^verbatim>\<open>Hosts\<close>; the journal is the one
  before the call.
\<close>

theorem Insert_success_appends_row_only:
  assumes "Insert E ctx tbl (row0, row1, row2, row3) = Inr (None, tbl')"
    and "branch = ToLower E (FoldExpression E row0)"
    and "user = FoldExpression E row1"
    and "host = ToLower E (FoldExpression E row2)"
  shows "Branches tbl' = Branches tbl @
           [\<lparr>CollectionIndex = of_nat (length (Values tbl)),
             SortOrders = ParseExpression E branch Collation_utf8mb4_0900_ai_ci\<rparr>] \<and>
         Users tbl' = Users tbl @
           [\<lparr>CollectionIndex = of_nat (length (Values tbl)),
             SortOrders = ParseExpression E user Collation_utf8mb4_0900_bin\<rparr>] \<and>
         Hosts tbl' = Hosts tbl @
           [\<lparr>CollectionIndex = of_nat (length (Values tbl)),
             SortOrders = ParseExpression E host Collation_utf8mb4_0900_ai_ci\<rparr>] \<and>
         Values tbl' = Values tbl @
           [\<lparr>Branch = branch, User = user, Host = host, Permissions = row3\<rparr>] \<and>
         binlog tbl' = binlog tbl"
proof -
  from assms(1) have ins: "insert_tbl E tbl branch user host row3 = (None, tbl')"
    unfolding assms(2-4)
    by (auto simp add: Insert_def Let_def split: option.splits sum.splits prod.splits if_splits)
  have "GetIndex tbl branch user host = - 1"
  proof (rule ccontr)
    assume "GetIndex tbl branch user host \<noteq> - 1"
    from insert_tbl_present [OF this] ins show False by simp
  qed
  from insert_tbl_absent [OF this, of E row3] ins show ?thesis by auto
qed

theorem Insert_success_appends_row_only_witness:
  "Values mainAlice = Values emptyStore @
     [\<lparr>Branch = ''main'', User = ''alice'', Host = ''%'', Permissions = Permissions_Write\<rparr>] \<and>
   binlog mainAlice = binlog emptyStore"
proof -
  have f: "''main'' = ToLower spec_externals (FoldExpression spec_externals ''main'')"
    "''alice'' = FoldExpression spec_externals ''alice''"
    "''%'' = ToLower spec_externals (FoldExpression spec_externals ''%'')"
    by (simp_all add: spec_eval)
  from Insert_success_appends_row_only [OF emptyStore_insert_mainAlice f]
  show ?thesis by blast
qed

text \<open>
  The claim as stated has the journal grow by one entry. Inserting
  \<open>(main, alice, %, write)\<close> into the empty store succeeds and the journal is as empty
  after it as before.
\<close>

theorem Insert_journal_counterexample:
  "Insert spec_externals None emptyStore (''main'', ''alice'', ''%'', Permissions_Write) =
     Inr (None, mainAlice) \<and>
   binlog emptyStore = [] \<and> binlog mainAlice = [] \<and>
   length (binlog mainAlice) \<noteq> length (binlog emptyStore) + 1"
  using emptyStore_insert_mainAlice
  by (simp add: emptyStore_def newAccess_def mainAlice_def)




text \<open>
  C10: when the length check, the uniqueness check and the self-authorization on the old
  and on the new branch of an \<^verbatim>\<open>Update\<close> pass and the old folded triple is not in the
  store (\<^verbatim>\<open>GetIndex\<close> returns -1), the deletion is skipped and the update is the
  \<^verbatim>\<open>Insert\<close> of the new row; when the subsumption check passes as well, it returns no
  error and leaves the store with the new row appended to all four slices.
\<close>

theorem Update_absent_old_row_inserts:
  assumes "oldBranch = ToLower E (FoldExpression E old0)"
    and "oldUser = FoldExpression E old1"
    and "oldHost = ToLower E (FoldExpression E old2)"
    and "newBranch = ToLower E (FoldExpression E new0)"
    and "newUser = FoldExpression E new1"
    and "newHost = ToLower E (FoldExpression E new2)"
    and "length newBranch \<le> MaxUint16" and "length newUser \<le> MaxUint16"
    and "length newHost \<le> MaxUint16"
    and "(oldBranch = newBranch \<and> oldUser = newUser \<and> oldHost = newHost)
           \<or> GetIndex tbl newBranch newUser newHost = - 1"
    and "holdsAdmin E tbl ctx oldBranch" and "holdsAdmin E tbl ctx newBranch"
    and "GetIndex tbl oldBranch oldUser oldHost = - 1"
  shows "Update E ctx tbl (old0, old1, old2, old3) (new0, new1, new2, new3) =
           Insert E ctx tbl (new0, new1, new2, new3) \<and>
         (Access_Match E tbl newBranch newUser newHost = Inr (matched, modPerms) \<and>
          modPerms AND Permissions_Admin \<noteq> Permissions_Admin \<longrightarrow>
          Update E ctx tbl (old0, old1, old2, old3) (new0, new1, new2, new3) =
           Inr (None,
                tbl\<lparr>Branches := Branches tbl @
                       [\<lparr>CollectionIndex = of_nat (length (Values tbl)),
                         SortOrders = ParseExpression E newBranch Collation_utf8mb4_0900_ai_ci\<rparr>],
                    Users := Users tbl @
                       [\<lparr>CollectionIndex = of_nat (length (Values tbl)),
                         SortOrders = ParseExpression E newUser Collation_utf8mb4_0900_bin\<rparr>],
                    Hosts := Hosts tbl @
                       [\<lparr>CollectionIndex = of_nat (length (Values tbl)),
                         SortOrders = ParseExpression E newHost Collation_utf8mb4_0900_ai_ci\<rparr>],
                    Values := Values tbl @
                       [\<lparr>Branch = newBranch, User = newUser, Host = newHost,
                         Permissions = new3\<rparr>]\<rparr>))"
proof -
  from assms(10,13) have absent: "GetIndex tbl newBranch newUser newHost = - 1" by auto
  note ins = insert_tbl_absent [OF absent, of E new3]
  have u: "Update E ctx tbl (old0, old1, old2, old3) (new0, new1, new2, new3) =
             (case Access_Match E tbl newBranch newUser newHost of
                Inl p \<Rightarrow> Inl p
              | Inr (matched, modPerms) \<Rightarrow>
                  if modPerms AND Permissions_Admin = Permissions_Admin
                  then Inr (Some (UniqueKeyErr newBranch newUser newHost modPerms), tbl)
                  else Inr (insert_tbl E tbl newBranch newUser newHost new3))"
    using assms absent
    by (auto simp add: Update_def Let_def holdsAdmin_def
        split: option.splits sum.splits prod.splits)
  have i: "Insert E ctx tbl (new0, new1, new2, new3) =
             (case Access_Match E tbl newBranch newUser newHost of
                Inl p \<Rightarrow> Inl p
              | Inr (matched, modPerms) \<Rightarrow>
                  if modPerms AND Permissions_Admin = Permissions_Admin
                  then Inr (Some (UniqueKeyErr newBranch newUser newHost modPerms), tbl)
                  else Inr (insert_tbl E tbl newBranch newUser newHost new3))"
    using assms(4-9,12)
    by (auto simp add: Insert_def Let_def holdsAdmin_def
        split: option.splits sum.splits prod.splits)
  from u i have 1: "Update E ctx tbl (old0, old1, old2, old3) (new0, new1, new2, new3) =
           Insert E ctx tbl (new0, new1, new2, new3)" by simp
  from u ins have 2: "Access_Match E tbl newBranch newUser newHost = Inr (matched, modPerms) \<and>
          modPerms AND Permissions_Admin \<noteq> Permissions_Admin \<longrightarrow>
          Update E ctx tbl (old0, old1, old2, old3) (new0, new1, new2, new3) =
           Inr (None,
                tbl\<lparr>Branches := Branches tbl @
                       [\<lparr>CollectionIndex = of_nat (length (Values tbl)),
                         SortOrders = ParseExpression E newBranch Collation_utf8mb4_0900_ai_ci\<rparr>],
                    Users := Users tbl @
                       [\<lparr>CollectionIndex = of_nat (length (Values tbl)),
                         SortOrders = ParseExpression E newUser Collation_utf8mb4_0900_bin\<rparr>],
                    Hosts := Hosts tbl @
                       [\<lparr>CollectionIndex = of_nat (length (Values tbl)),
                         SortOrders = ParseExpression E newHost Collation_utf8mb4_0900_ai_ci\<rparr>],
                    Values := Values tbl @
                       [\<lparr>Branch = newBranch, User = newUser, Host = newHost,
                         Permissions = new3\<rparr>]\<rparr>)"
    by simp
  from 1 2 show ?thesis by blast
qed

theorem Update_absent_old_row_inserts_witness:
  "Update spec_externals None twoRows
       (''x'', ''bob'', ''%'', Permissions_Write) (''main'', ''carol'', ''%'', Permissions_Write) =
     Insert spec_externals None twoRows (''main'', ''carol'', ''%'', Permissions_Write) \<and>
   (\<exists>tbl'. Update spec_externals None twoRows
       (''x'', ''bob'', ''%'', Permissions_Write) (''main'', ''carol'', ''%'', Permissions_Write) =
       Inr (None, tbl') \<and>
     map triple (Values tbl') =
       [(''main'', ''alice'', ''%''), (''dev'', ''bob'', ''%''), (''main'', ''carol'', ''%'')])"
proof -
  have l: "length ''main'' \<le> MaxUint16" "length ''carol'' \<le> MaxUint16"
    "length ''%'' \<le> MaxUint16"
    by (simp_all add: MaxUint16_def)
  have p: "(''x'' = ''main'' \<and> ''bob'' = ''carol'' \<and> ''%'' = ''%'')
              \<or> GetIndex twoRows ''main'' ''carol'' ''%'' = - 1"
    by (simp add: twoRows_GetIndex)
  note r = Update_absent_old_row_inserts [OF spec_folds(3) [symmetric] spec_folds(7) [symmetric]
        spec_folds(4) [symmetric] spec_folds(1) [symmetric] spec_folds(8) [symmetric]
        spec_folds(4) [symmetric] l p holdsAdmin_None holdsAdmin_None twoRows_GetIndex(3),
        where ?old3.0 = Permissions_Write and ?new3.0 = Permissions_Write
          and ?matched = False and ?modPerms = 0]
  note r1 = r [THEN conjunct1]
  note r2 = r [THEN conjunct2, THEN mp, OF conjI [OF twoRows_carol zero_not_admin]]
  show ?thesis
    apply (rule conjI)
     apply (rule r1)
    apply (rule exI)
    apply (rule conjI)
     apply (rule r2)
    apply (simp add: twoRows_def triple_def)
    done
qed

end
